theory Spec2Isabelle
  imports Complex_Main "HOL-Library.Word" "HOL-Library.Monad_Syntax"
begin

section \<open>Single-precision arithmetic\<close>

text \<open>
  \<^verbatim>\<open>float32_t\<close> is the IEEE-754 binary32 format.  The kernel uses \<^verbatim>\<open>+\<close>, \<^verbatim>\<open>-\<close>,
  \<^verbatim>\<open>*\<close>, \<^verbatim>\<open>/\<close> and the conversion from \<^verbatim>\<open>uint32_t\<close>; each is the exact result rounded
  to nearest, ties to even, one operation at a time (no fused multiply-add).

  A value is a sign with a biased exponent below 255 and a 23-bit fraction (\<open>+0.0\<close> and
  \<open>-0.0\<close> are two values), a signed infinity, or a NaN (payloads are not distinguished).
  Every finite value is an integer multiple of \<open>2 ^ - 149\<close>; \<open>mag\<close> is that multiple
  and \<open>sval\<close> the signed one, so all arithmetic is on integers.
\<close>

datatype float32_t = Finite bool nat nat | Infinity bool | NaN

text \<open>\<open>Finite s e f\<close> is a value of the format when \<open>e < 255\<close> and \<open>f < 2 ^ 23\<close>; the
  operations return such values only.  Its magnitude in units of \<open>2 ^ - 149\<close>: a
  subnormal (\<open>e = 0\<close>) is its fraction, a normal value has the implicit leading bit.\<close>

definition mag :: "nat \<Rightarrow> nat \<Rightarrow> int" where
  "mag e f = (if e = 0 then int f else (2 ^ 23 + int f) * 2 ^ (e - 1))"

definition sval :: "bool \<Rightarrow> nat \<Rightarrow> nat \<Rightarrow> int" where
  "sval s e f = (if s then - mag e f else mag e f)"

text \<open>The number of binary digits of a positive integer.\<close>

function bitlen :: "int \<Rightarrow> nat" where
  "bitlen n = (if n \<le> 0 then 0 else Suc (bitlen (n div 2)))"
  by pat_completeness auto
termination
  by (relation "measure nat") auto

declare bitlen.simps [simp del]

text \<open>\<open>rne p d\<close>: the integer nearest to \<open>p / d\<close>, the even one at a tie (\<open>0 \<le> p\<close>, \<open>0 < d\<close>).\<close>

definition rne :: "int \<Rightarrow> int \<Rightarrow> int" where
  "rne p d =
     (if 2 * (p mod d) < d then p div d
      else if d < 2 * (p mod d) then p div d + 1
      else if even (p div d) then p div d else p div d + 1)"

text \<open>\<open>pack s m sh\<close>: the value \<open>m * 2 ^ sh\<close> (in units of \<open>2 ^ - 149\<close>) with sign \<open>s\<close>,
  where \<open>m \<le> 2 ^ 24\<close>; a significand of \<open>2 ^ 24\<close> carries into the exponent, and an
  exponent beyond the format overflows to infinity.\<close>

definition pack :: "bool \<Rightarrow> int \<Rightarrow> nat \<Rightarrow> float32_t" where
  "pack s m sh =
     (if m < 2 ^ 23 then Finite s 0 (nat m)
      else if m = 2 ^ 24 then (if 255 \<le> sh + 2 then Infinity s else Finite s (sh + 2) 0)
      else (if 255 \<le> sh + 1 then Infinity s else Finite s (sh + 1) (nat (m - 2 ^ 23))))"

text \<open>\<open>shift_of n\<close>: the exponent of the unit in the last place of a magnitude whose
  integer part is \<open>n\<close>: below \<open>2 ^ 24\<close> the spacing is one unit (the subnormals and the
  first binade), above it the spacing doubles with every further binary digit.\<close>

definition shift_of :: "int \<Rightarrow> nat" where
  "shift_of n = (if n < 2 ^ 24 then 0 else bitlen n - 24)"

text \<open>\<open>round_f32 s p q\<close>: the magnitude \<open>p / q\<close> (in units of \<open>2 ^ - 149\<close>) with sign
  \<open>s\<close>, rounded to binary32.\<close>

definition round_f32 :: "bool \<Rightarrow> int \<Rightarrow> int \<Rightarrow> float32_t" where
  "round_f32 s p q = pack s (rne p (q * 2 ^ shift_of (p div q))) (shift_of (p div q))"

text \<open>A non-zero signed number of units, rounded.\<close>

definition round_signed :: "int \<Rightarrow> float32_t" where
  "round_signed z = round_f32 (z < 0) \<bar>z\<bar> 1"

definition f32_zero :: float32_t where
  "f32_zero = Finite False 0 0"

definition f32_one :: float32_t where
  "f32_one = Finite False 127 0"

fun f32_neg :: "float32_t \<Rightarrow> float32_t" where
  "f32_neg (Finite s e f) = Finite (\<not> s) e f"
| "f32_neg (Infinity s) = Infinity (\<not> s)"
| "f32_neg NaN = NaN"

text \<open>Addition.  An exact sum of zero is \<open>+0.0\<close>, except that \<open>-0.0 + -0.0\<close> is
  \<open>-0.0\<close>; infinities of opposite sign give NaN.\<close>

fun f32_add :: "float32_t \<Rightarrow> float32_t \<Rightarrow> float32_t" where
  "f32_add NaN y = NaN"
| "f32_add x NaN = NaN"
| "f32_add (Infinity s) (Infinity t) = (if s = t then Infinity s else NaN)"
| "f32_add (Infinity s) (Finite t g h) = Infinity s"
| "f32_add (Finite s e f) (Infinity t) = Infinity t"
| "f32_add (Finite s e f) (Finite t g h) =
     (if sval s e f + sval t g h = 0 then Finite (mag e f = 0 \<and> mag g h = 0 \<and> s \<and> t) 0 0
      else round_signed (sval s e f + sval t g h))"

definition f32_sub :: "float32_t \<Rightarrow> float32_t \<Rightarrow> float32_t" where
  "f32_sub x y = f32_add x (f32_neg y)"

text \<open>Multiplication and division: the sign is the exclusive or of the signs;
  \<open>0 * \<infinity>\<close>, \<open>0 / 0\<close> and \<open>\<infinity> / \<infinity>\<close> are NaN, and a non-zero value divided by zero is
  an infinity.\<close>

fun f32_mul :: "float32_t \<Rightarrow> float32_t \<Rightarrow> float32_t" where
  "f32_mul NaN y = NaN"
| "f32_mul x NaN = NaN"
| "f32_mul (Infinity s) (Infinity t) = Infinity (s \<noteq> t)"
| "f32_mul (Infinity s) (Finite t g h) = (if mag g h = 0 then NaN else Infinity (s \<noteq> t))"
| "f32_mul (Finite s e f) (Infinity t) = (if mag e f = 0 then NaN else Infinity (s \<noteq> t))"
| "f32_mul (Finite s e f) (Finite t g h) = round_f32 (s \<noteq> t) (mag e f * mag g h) (2 ^ 149)"

fun f32_div :: "float32_t \<Rightarrow> float32_t \<Rightarrow> float32_t" where
  "f32_div NaN y = NaN"
| "f32_div x NaN = NaN"
| "f32_div (Infinity s) (Infinity t) = NaN"
| "f32_div (Infinity s) (Finite t g h) = Infinity (s \<noteq> t)"
| "f32_div (Finite s e f) (Infinity t) = Finite (s \<noteq> t) 0 0"
| "f32_div (Finite s e f) (Finite t g h) =
     (if mag g h = 0 then (if mag e f = 0 then NaN else Infinity (s \<noteq> t))
      else round_f32 (s \<noteq> t) (mag e f * 2 ^ 149) (mag g h))"

type_synonym uint32_t = "32 word"

text \<open>The conversion \<^verbatim>\<open>(float32_t) blockSize\<close>; it rounds above \<open>2 ^ 24\<close>.\<close>

definition f32_of_u32 :: "uint32_t \<Rightarrow> float32_t" where
  "f32_of_u32 w = round_f32 False (uint w * 2 ^ 149) 1"

section \<open>Memory\<close>

text \<open>
  Memory is a partial map from addresses (counted in \<^verbatim>\<open>float32_t\<close> cells) to values; an
  address outside its domain is not valid storage, and an access there is undefined
  behaviour in C, which the model reports as \<open>None\<close>.  The machine also keeps the
  sequence of addresses read and the sequence of addresses written, in program order.
\<close>

record machine =
  mem :: "nat \<rightharpoonup> float32_t"
  rd_log :: "nat list"
  wr_log :: "nat list"

definition load :: "nat \<Rightarrow> machine \<Rightarrow> (float32_t \<times> machine) option" where
  "load a m =
     (case mem m a of
        None \<Rightarrow> None
      | Some v \<Rightarrow> Some (v, m\<lparr>rd_log := rd_log m @ [a]\<rparr>))"

definition store :: "nat \<Rightarrow> float32_t \<Rightarrow> machine \<Rightarrow> machine option" where
  "store a v m =
     (case mem m a of
        None \<Rightarrow> None
      | Some old \<Rightarrow> Some (m\<lparr>mem := (mem m)(a \<mapsto> v), wr_log := wr_log m @ [a]\<rparr>))"

section \<open>The kernel \<^verbatim>\<open>arm_var_f32\<close>\<close>

text \<open>
  The build selects one of two loop structures with
  \<^verbatim>\<open>#if !defined(ARM_MATH_CM0_FAMILY) && !defined(ARM_MATH_CM3_FAMILY)\<close>.
\<close>

datatype target = ARM_MATH_CM0_FAMILY | ARM_MATH_CM3_FAMILY | ARM_MATH_CM4 | ARM_MATH_CM7

fun unrolled :: "target \<Rightarrow> bool" where
  "unrolled ARM_MATH_CM0_FAMILY = False"
| "unrolled ARM_MATH_CM3_FAMILY = False"
| "unrolled ARM_MATH_CM4 = True"
| "unrolled ARM_MATH_CM7 = True"

text \<open>
  Each \<^verbatim>\<open>while (blkCnt > 0u) { ...; blkCnt--; }\<close> is a recursive function of the loop
  counter, the read pointer \<^verbatim>\<open>pInput\<close>, the accumulator and the machine
  (the accumulator \<^verbatim>\<open>sum\<close> is written \<open>sumA\<close>).
  The first is the unrolled summation (four loads, then four additions):
\<close>

function sum_loop4 ::
  "uint32_t \<Rightarrow> nat \<Rightarrow> float32_t \<Rightarrow> machine \<Rightarrow> (nat \<times> float32_t \<times> machine) option" where
  "sum_loop4 blkCnt pInput sumA m =
     (if blkCnt > 0 then
        do {
          (in1, m) \<leftarrow> load pInput m;
          (in2, m) \<leftarrow> load (pInput + 1) m;
          (in3, m) \<leftarrow> load (pInput + 2) m;
          (in4, m) \<leftarrow> load (pInput + 3) m;
          sum_loop4 (blkCnt - 1) (pInput + 4)
            (f32_add (f32_add (f32_add (f32_add sumA in1) in2) in3) in4) m
        }
      else Some (pInput, sumA, m))"
  by pat_completeness auto
termination
  by (relation "measure (\<lambda>(blkCnt, pInput, sumA, m). unat blkCnt)")
     (auto simp: word_greater_zero_iff unat_minus_one unat_gt_0)

text \<open>The element-at-a-time summation \<^verbatim>\<open>sum += *pInput++\<close>:\<close>

function sum_loop1 ::
  "uint32_t \<Rightarrow> nat \<Rightarrow> float32_t \<Rightarrow> machine \<Rightarrow> (nat \<times> float32_t \<times> machine) option" where
  "sum_loop1 blkCnt pInput sumA m =
     (if blkCnt > 0 then
        do {
          (x, m) \<leftarrow> load pInput m;
          sum_loop1 (blkCnt - 1) (pInput + 1) (f32_add sumA x) m
        }
      else Some (pInput, sumA, m))"
  by pat_completeness auto
termination
  by (relation "measure (\<lambda>(blkCnt, pInput, sumA, m). unat blkCnt)")
     (auto simp: word_greater_zero_iff unat_minus_one unat_gt_0)

text \<open>One step of the second pass:
  \<^verbatim>\<open>fValue = *pInput++ - fMean; fSum += fValue * fValue;\<close>\<close>

definition dev_step ::
  "float32_t \<Rightarrow> nat \<Rightarrow> float32_t \<Rightarrow> machine \<Rightarrow> (float32_t \<times> machine) option" where
  "dev_step fMean pInput fSum m =
     do {
       (x, m) \<leftarrow> load pInput m;
       let fValue = f32_sub x fMean;
       Some (f32_add fSum (f32_mul fValue fValue), m)
     }"

function dev_loop4 ::
  "float32_t \<Rightarrow> uint32_t \<Rightarrow> nat \<Rightarrow> float32_t \<Rightarrow> machine
     \<Rightarrow> (nat \<times> float32_t \<times> machine) option" where
  "dev_loop4 fMean blkCnt pInput fSum m =
     (if blkCnt > 0 then
        do {
          (fSum, m) \<leftarrow> dev_step fMean pInput fSum m;
          (fSum, m) \<leftarrow> dev_step fMean (pInput + 1) fSum m;
          (fSum, m) \<leftarrow> dev_step fMean (pInput + 2) fSum m;
          (fSum, m) \<leftarrow> dev_step fMean (pInput + 3) fSum m;
          dev_loop4 fMean (blkCnt - 1) (pInput + 4) fSum m
        }
      else Some (pInput, fSum, m))"
  by pat_completeness auto
termination
  by (relation "measure (\<lambda>(fMean, blkCnt, pInput, fSum, m). unat blkCnt)")
     (auto simp: word_greater_zero_iff unat_minus_one unat_gt_0)

function dev_loop1 ::
  "float32_t \<Rightarrow> uint32_t \<Rightarrow> nat \<Rightarrow> float32_t \<Rightarrow> machine
     \<Rightarrow> (nat \<times> float32_t \<times> machine) option" where
  "dev_loop1 fMean blkCnt pInput fSum m =
     (if blkCnt > 0 then
        do {
          (fSum, m) \<leftarrow> dev_step fMean pInput fSum m;
          dev_loop1 fMean (blkCnt - 1) (pInput + 1) fSum m
        }
      else Some (pInput, fSum, m))"
  by pat_completeness auto
termination
  by (relation "measure (\<lambda>(fMean, blkCnt, pInput, fSum, m). unat blkCnt)")
     (auto simp: word_greater_zero_iff unat_minus_one unat_gt_0)

declare sum_loop4.simps [simp del] sum_loop1.simps [simp del]
  dev_loop4.simps [simp del] dev_loop1.simps [simp del]

text \<open>The first pass (source lines 97 to 141): \<^verbatim>\<open>sum\<close> over the block.\<close>

definition pass1 ::
  "target \<Rightarrow> nat \<Rightarrow> uint32_t \<Rightarrow> machine \<Rightarrow> (nat \<times> float32_t \<times> machine) option" where
  "pass1 tgt pSrc blockSize m =
     (if unrolled tgt then
        do {
          (pInput, sumA, m) \<leftarrow> sum_loop4 (drop_bit 2 blockSize) pSrc f32_zero m;
          sum_loop1 (blockSize mod 4) pInput sumA m
        }
      else sum_loop1 blockSize pSrc f32_zero m)"

text \<open>The second pass (source lines 146 to 185): \<^verbatim>\<open>fSum\<close>, the squared deviations.\<close>

definition pass2 ::
  "target \<Rightarrow> float32_t \<Rightarrow> nat \<Rightarrow> uint32_t \<Rightarrow> machine
     \<Rightarrow> (nat \<times> float32_t \<times> machine) option" where
  "pass2 tgt fMean pSrc blockSize m =
     (if unrolled tgt then
        do {
          (pInput, fSum, m) \<leftarrow> dev_loop4 fMean (drop_bit 2 blockSize) pSrc f32_zero m;
          dev_loop1 fMean (blockSize mod 4) pInput fSum m
        }
      else dev_loop1 fMean blockSize pSrc f32_zero m)"

text \<open>The function: the guard \<^verbatim>\<open>blockSize <= 1u\<close> with its early return, the first
  pass, \<^verbatim>\<open>fMean = sum / (float32_t) blockSize\<close>, the second pass from \<^verbatim>\<open>pSrc\<close> again,
  and the store \<^verbatim>\<open>*pResult = fSum / (float32_t)(blockSize - 1.0f)\<close>, in which
  \<^verbatim>\<open>blockSize\<close> is converted before the subtraction.\<close>

definition arm_var_f32 :: "target \<Rightarrow> nat \<Rightarrow> uint32_t \<Rightarrow> nat \<Rightarrow> machine \<Rightarrow> machine option" where
  "arm_var_f32 tgt pSrc blockSize pResult m =
     (if blockSize \<le> 1 then store pResult f32_zero m
      else
        do {
          (pInput, sumA, m) \<leftarrow> pass1 tgt pSrc blockSize m;
          let fMean = f32_div sumA (f32_of_u32 blockSize);
          (pInput, fSum, m) \<leftarrow> pass2 tgt fMean pSrc blockSize m;
          store pResult (f32_div fSum (f32_sub (f32_of_u32 blockSize) f32_one)) m
        })"

section \<open>What a call computes\<close>

text \<open>
  \<open>block h p n\<close> is the vector held in the \<open>n\<close> cells from address \<open>p\<close>, provided
  every one of them is valid storage.
\<close>

fun block :: "(nat \<rightharpoonup> float32_t) \<Rightarrow> nat \<Rightarrow> nat \<Rightarrow> float32_t list option" where
  "block h p 0 = Some []"
| "block h p (Suc n) =
     (case h p of
        None \<Rightarrow> None
      | Some v \<Rightarrow> (case block h (Suc p) n of None \<Rightarrow> None | Some xs \<Rightarrow> Some (v # xs)))"

text \<open>The accumulation step of the second pass, as a function of the accumulator and
  the element.\<close>

definition sq_dev :: "float32_t \<Rightarrow> float32_t \<Rightarrow> float32_t \<Rightarrow> float32_t" where
  "sq_dev fMean acc x = f32_add acc (f32_mul (f32_sub x fMean) (f32_sub x fMean))"

text \<open>The machine after reading the \<open>n\<close> cells from \<open>p\<close> in ascending order.\<close>

definition reads :: "nat \<Rightarrow> nat \<Rightarrow> machine \<Rightarrow> machine" where
  "reads p n m = m\<lparr>rd_log := rd_log m @ [p..<p + n]\<rparr>"

text \<open>The mean and the variance the kernel computes from a vector, operation by operation
  as in the source: both sums start from \<^verbatim>\<open>0.0f\<close> and run left to right; the divisor of
  the variance is \<^verbatim>\<open>(float32_t)(blockSize - 1.0f)\<close>, a single-precision subtraction.\<close>

definition mean_of :: "float32_t list \<Rightarrow> uint32_t \<Rightarrow> float32_t" where
  "mean_of xs blockSize = f32_div (foldl f32_add f32_zero xs) (f32_of_u32 blockSize)"

definition var_of :: "float32_t list \<Rightarrow> uint32_t \<Rightarrow> float32_t" where
  "var_of xs blockSize =
     f32_div (foldl (sq_dev (mean_of xs blockSize)) f32_zero xs)
       (f32_sub (f32_of_u32 blockSize) f32_one)"

text \<open>The value found in the result cell once the call has returned.\<close>

definition result_at :: "nat \<Rightarrow> machine option \<Rightarrow> float32_t option" where
  "result_at pResult r = (case r of None \<Rightarrow> None | Some m \<Rightarrow> mem m pResult)"

text \<open>A memory that holds the vector \<open>xs\<close> from address \<open>p\<close> and nothing else, and a
  machine that starts on a given memory with empty access logs.\<close>

definition mem_of :: "nat \<Rightarrow> float32_t list \<Rightarrow> (nat \<rightharpoonup> float32_t)" where
  "mem_of p xs = (\<lambda>a. if p \<le> a \<and> a < p + length xs then Some (xs ! (a - p)) else None)"

definition machine_of :: "(nat \<rightharpoonup> float32_t) \<Rightarrow> machine" where
  "machine_of h = \<lparr>mem = h, rd_log = [], wr_log = []\<rparr>"

text \<open>The variance as the specification words it: the squared deviations summed left to
  right and divided by \<open>blockSize - 1\<close>, the integer, converted to single precision.\<close>

definition spec_var :: "float32_t list \<Rightarrow> uint32_t \<Rightarrow> float32_t" where
  "spec_var xs blockSize =
     f32_div (foldl (sq_dev (mean_of xs blockSize)) f32_zero xs) (f32_of_u32 (blockSize - 1))"

text \<open>A vector of \<open>2 ^ 24 + 1\<close> elements, the first 1.0 and the others 0.0.\<close>

definition big_vector :: "float32_t list" where
  "big_vector = f32_one # replicate 16777216 f32_zero"

text \<open>Two finite values that are numerically equal (\<open>+0.0\<close> and \<open>-0.0\<close> are).\<close>

fun same_value :: "float32_t \<Rightarrow> float32_t \<Rightarrow> bool" where
  "same_value (Finite s e f) (Finite t g h) = (sval s e f = sval t g h)"
| "same_value x y = False"

text \<open>\<open>at_least k x\<close>: \<open>x\<close> is positive and at least \<open>2 ^ k\<close> units of \<open>2 ^ - 149\<close>
  (\<open>+\<infinity>\<close> included).\<close>

fun at_least :: "nat \<Rightarrow> float32_t \<Rightarrow> bool" where
  "at_least k (Finite s e f) = (\<not> s \<and> 2 ^ k \<le> mag e f)"
| "at_least k (Infinity s) = (\<not> s)"
| "at_least k NaN = False"

text \<open>The vector of the worked scenario; the literals are small integers, which the
  conversion represents exactly.\<close>

definition scenario :: "float32_t list" where
  "scenario = map f32_of_u32 [2, 4, 4, 4, 5, 5, 7, 9]"

text \<open>The real number a finite value stands for (0 by convention for the others).\<close>

fun is_finite :: "float32_t \<Rightarrow> bool" where
  "is_finite (Finite s e f) = True"
| "is_finite x = False"

fun fval :: "float32_t \<Rightarrow> real" where
  "fval (Finite s e f) = real_of_int (sval s e f) / 2 ^ 149"
| "fval x = 0"

text \<open>\<open>exact_op fop rop x y\<close>: the single-precision operation \<open>fop\<close> on \<open>x\<close> and \<open>y\<close>
  incurs no rounding and no overflow: its result is finite and stands for the result of the
  real operation \<open>rop\<close> on the values of \<open>x\<close> and \<open>y\<close>.\<close>

definition exact_op ::
  "(float32_t \<Rightarrow> float32_t \<Rightarrow> float32_t) \<Rightarrow> (real \<Rightarrow> real \<Rightarrow> real) \<Rightarrow> float32_t \<Rightarrow> float32_t \<Rightarrow> bool" where
  "exact_op fop rop x y \<longleftrightarrow> is_finite (fop x y) \<and> fval (fop x y) = rop (fval x) (fval y)"

text \<open>The mean and the variance of two elements, operation by operation as the kernel
  computes them for \<^verbatim>\<open>blockSize = 2\<close> (the divisor \<^verbatim>\<open>2 - 1.0f\<close> is \<open>1.0\<close>).\<close>

definition pair_mean :: "float32_t \<Rightarrow> float32_t \<Rightarrow> float32_t" where
  "pair_mean a b = f32_div (f32_add (f32_add f32_zero a) b) (f32_of_u32 2)"

definition pair_var :: "float32_t \<Rightarrow> float32_t \<Rightarrow> float32_t" where
  "pair_var a b =
     f32_div
       (f32_add
          (f32_add f32_zero (f32_mul (f32_sub a (pair_mean a b)) (f32_sub a (pair_mean a b))))
          (f32_mul (f32_sub b (pair_mean a b)) (f32_sub b (pair_mean a b))))
       f32_one"

text \<open>Every operation of that computation is exact.\<close>

definition pair_exact :: "float32_t \<Rightarrow> float32_t \<Rightarrow> bool" where
  "pair_exact a b \<longleftrightarrow>
     is_finite a \<and> is_finite b \<and>
     exact_op f32_add (+) f32_zero a \<and>
     exact_op f32_add (+) (f32_add f32_zero a) b \<and>
     exact_op f32_div (/) (f32_add (f32_add f32_zero a) b) (f32_of_u32 2) \<and>
     exact_op f32_sub (-) a (pair_mean a b) \<and>
     exact_op f32_sub (-) b (pair_mean a b) \<and>
     exact_op f32_mul (*) (f32_sub a (pair_mean a b)) (f32_sub a (pair_mean a b)) \<and>
     exact_op f32_mul (*) (f32_sub b (pair_mean a b)) (f32_sub b (pair_mean a b)) \<and>
     exact_op f32_add (+) f32_zero (f32_mul (f32_sub a (pair_mean a b)) (f32_sub a (pair_mean a b))) \<and>
     exact_op f32_add (+)
       (f32_add f32_zero (f32_mul (f32_sub a (pair_mean a b)) (f32_sub a (pair_mean a b))))
       (f32_mul (f32_sub b (pair_mean a b)) (f32_sub b (pair_mean a b))) \<and>
     exact_op f32_div (/)
       (f32_add
          (f32_add f32_zero (f32_mul (f32_sub a (pair_mean a b)) (f32_sub a (pair_mean a b))))
          (f32_mul (f32_sub b (pair_mean a b)) (f32_sub b (pair_mean a b))))
       f32_one"

text \<open>The two-sample formula \<open>(a - b)\<^sup>2 / 2\<close> as the specification words it, in single
  precision.\<close>

definition spec_two_sample :: "float32_t \<Rightarrow> float32_t \<Rightarrow> float32_t" where
  "spec_two_sample a b = f32_div (f32_mul (f32_sub a b) (f32_sub a b)) (f32_of_u32 2)"

section \<open>The loops as folds over the block\<close>

lemma reads_0 [simp]: "reads p 0 m = m"
  by (simp add: reads_def)

lemma mem_reads [simp]: "mem (reads p n m) = mem m"
  by (simp add: reads_def)

lemma wr_log_reads [simp]: "wr_log (reads p n m) = wr_log m"
  by (simp add: reads_def)

lemma rd_log_reads [simp]: "rd_log (reads p n m) = rd_log m @ [p..<p + n]"
  by (simp add: reads_def)

lemma reads_reads: "reads (p + a) b (reads p a m) = reads p (a + b) m"
proof -
  have "[p..<p + (a + b)] = [p..<p + a] @ [p + a..<p + a + b]"
    by (metis add.assoc le_add1 upt_add_eq_append)
  then show ?thesis by (simp add: reads_def)
qed

lemma reads_Suc: "reads (Suc p) n (reads p (Suc 0) m) = reads p (Suc n) m"
  using reads_reads [of p 1 n m] by simp

lemma load_eq: "load a m = (case mem m a of None \<Rightarrow> None | Some v \<Rightarrow> Some (v, reads a 1 m))"
  by (simp add: load_def reads_def split: option.split)

lemma block_length: "block h p n = Some xs \<Longrightarrow> length xs = n"
  by (induction n arbitrary: p xs) (auto split: option.splits)

lemma block_add:
  "block h p (a + b) =
     (case block h p a of
        None \<Rightarrow> None
      | Some xs \<Rightarrow> (case block h (p + a) b of None \<Rightarrow> None | Some ys \<Rightarrow> Some (xs @ ys)))"
  by (induction a arbitrary: p) (auto split: option.splits)

lemma unat_pred: "(k::uint32_t) > 0 \<Longrightarrow> unat (k - 1) = unat k - 1"
  by (simp add: unat_minus_one word_greater_zero_iff)

lemma sum_loop1_eq:
  "sum_loop1 k p s m =
     (case block (mem m) p (unat k) of
        None \<Rightarrow> None
      | Some xs \<Rightarrow> Some (p + unat k, foldl f32_add s xs, reads p (unat k) m))"
proof (induction n \<equiv> "unat k" arbitrary: k p s m)
  case 0
  then have "k = 0" by (simp add: unat_eq_0)
  then show ?case by (subst sum_loop1.simps) simp
next
  case (Suc n)
  from Suc.hyps(2) have k: "unat k = Suc n" by simp
  then have pos: "k > 0" by (auto simp: word_greater_zero_iff)
  with k have n: "unat (k - 1) = n" by (simp add: unat_pred)
  show ?case
  proof (cases "mem m p")
    case None
    with pos k show ?thesis
      by (subst sum_loop1.simps) (simp add: load_eq)
  next
    case (Some v)
    have ih: "sum_loop1 (k - 1) (p + 1) (f32_add s v) (reads p 1 m) =
      (case block (mem m) (Suc p) n of
         None \<Rightarrow> None
       | Some xs \<Rightarrow> Some (p + 1 + n, foldl f32_add (f32_add s v) xs, reads (p + 1) n (reads p 1 m)))"
      using Suc.hyps(1) [of "k - 1" "p + 1" "f32_add s v" "reads p 1 m"] unfolding n by simp
    from pos k Some ih show ?thesis
      by (subst sum_loop1.simps) (simp add: load_eq reads_Suc split: option.split)
  qed
qed


lemma block_4:
  "block h p 4 =
     (case h p of None \<Rightarrow> None | Some a \<Rightarrow>
      (case h (p + 1) of None \<Rightarrow> None | Some b \<Rightarrow>
       (case h (p + 2) of None \<Rightarrow> None | Some c \<Rightarrow>
        (case h (p + 3) of None \<Rightarrow> None | Some d \<Rightarrow> Some [a, b, c, d]))))"
  by (simp add: eval_nat_numeral split: option.split)

lemma reads_4:
  "reads (p + 3) (Suc 0) (reads (Suc (Suc p)) (Suc 0) (reads (Suc p) (Suc 0) (reads p (Suc 0) m))) =
     reads p 4 m"
  using reads_reads [of p 1 1 m] reads_reads [of p 2 1 m] reads_reads [of p 3 1 m]
  by (simp add: numeral_eq_Suc)

lemma block_4_step:
  "block h p (4 * Suc n) =
     (case block h p 4 of
        None \<Rightarrow> None
      | Some xs \<Rightarrow> (case block h (p + 4) (4 * n) of None \<Rightarrow> None | Some ys \<Rightarrow> Some (xs @ ys)))"
  using block_add [of h p 4 "4 * n"] by simp

lemma sum_loop4_eq:
  "sum_loop4 k p s m =
     (case block (mem m) p (4 * unat k) of
        None \<Rightarrow> None
      | Some xs \<Rightarrow> Some (p + 4 * unat k, foldl f32_add s xs, reads p (4 * unat k) m))"
proof (induction n \<equiv> "unat k" arbitrary: k p s m)
  case 0
  then have "k = 0" by (simp add: unat_eq_0)
  then show ?case by (subst sum_loop4.simps) simp
next
  case (Suc n)
  from Suc.hyps(2) have k: "unat k = Suc n" by simp
  then have pos: "k > 0" by (auto simp: word_greater_zero_iff)
  with k have n: "unat (k - 1) = n" by (simp add: unat_pred)
  have ih: "sum_loop4 (k - 1) (p + 4) s' (reads p 4 m) =
      (case block (mem m) (p + 4) (4 * n) of
         None \<Rightarrow> None
       | Some xs \<Rightarrow> Some (p + 4 + 4 * n, foldl f32_add s' xs, reads (p + 4) (4 * n) (reads p 4 m)))"
    for s'
    using Suc.hyps(1) [of "k - 1" "p + 4" s' "reads p 4 m"] unfolding n by simp
  have unfold: "sum_loop4 k p s m =
      do {
        (in1, m) \<leftarrow> load p m;
        (in2, m) \<leftarrow> load (p + 1) m;
        (in3, m) \<leftarrow> load (p + 2) m;
        (in4, m) \<leftarrow> load (p + 3) m;
        sum_loop4 (k - 1) (p + 4) (f32_add (f32_add (f32_add (f32_add s in1) in2) in3) in4) m
      }"
    using pos by (subst sum_loop4.simps) simp
  show ?case
    unfolding unfold k block_4_step block_4
    by (simp add: load_eq reads_4 ih reads_reads split: option.split)
qed

lemma dev_step_eq:
  "dev_step fMean p acc m =
     (case mem m p of None \<Rightarrow> None | Some x \<Rightarrow> Some (sq_dev fMean acc x, reads p 1 m))"
  by (simp add: dev_step_def load_eq sq_dev_def Let_def split: option.split)

lemma dev_loop1_eq:
  "dev_loop1 fMean k p s m =
     (case block (mem m) p (unat k) of
        None \<Rightarrow> None
      | Some xs \<Rightarrow> Some (p + unat k, foldl (sq_dev fMean) s xs, reads p (unat k) m))"
proof (induction n \<equiv> "unat k" arbitrary: k p s m)
  case 0
  then have "k = 0" by (simp add: unat_eq_0)
  then show ?case by (subst dev_loop1.simps) simp
next
  case (Suc n)
  from Suc.hyps(2) have k: "unat k = Suc n" by simp
  then have pos: "k > 0" by (auto simp: word_greater_zero_iff)
  with k have n: "unat (k - 1) = n" by (simp add: unat_pred)
  have ih: "dev_loop1 fMean (k - 1) (Suc p) s' (reads p (Suc 0) m) =
      (case block (mem m) (Suc p) n of
         None \<Rightarrow> None
       | Some xs \<Rightarrow> Some (Suc (p + n), foldl (sq_dev fMean) s' xs, reads p (Suc n) m))"
    for s'
    using Suc.hyps(1) [of "k - 1" "Suc p" s' "reads p (Suc 0) m"] unfolding n
    by (simp add: reads_Suc split: option.split)
  from pos k show ?case
    by (subst dev_loop1.simps) (simp add: dev_step_eq ih split: option.split)
qed

lemma dev_loop4_eq:
  "dev_loop4 fMean k p s m =
     (case block (mem m) p (4 * unat k) of
        None \<Rightarrow> None
      | Some xs \<Rightarrow> Some (p + 4 * unat k, foldl (sq_dev fMean) s xs, reads p (4 * unat k) m))"
proof (induction n \<equiv> "unat k" arbitrary: k p s m)
  case 0
  then have "k = 0" by (simp add: unat_eq_0)
  then show ?case by (subst dev_loop4.simps) simp
next
  case (Suc n)
  from Suc.hyps(2) have k: "unat k = Suc n" by simp
  then have pos: "k > 0" by (auto simp: word_greater_zero_iff)
  with k have n: "unat (k - 1) = n" by (simp add: unat_pred)
  have ih: "dev_loop4 fMean (k - 1) (p + 4) s' (reads p 4 m) =
      (case block (mem m) (p + 4) (4 * n) of
         None \<Rightarrow> None
       | Some xs \<Rightarrow> Some (p + 4 + 4 * n, foldl (sq_dev fMean) s' xs, reads (p + 4) (4 * n) (reads p 4 m)))"
    for s'
    using Suc.hyps(1) [of "k - 1" "p + 4" s' "reads p 4 m"] unfolding n by simp
  have unfold: "dev_loop4 fMean k p s m =
      do {
        (fSum, m) \<leftarrow> dev_step fMean p s m;
        (fSum, m) \<leftarrow> dev_step fMean (p + 1) fSum m;
        (fSum, m) \<leftarrow> dev_step fMean (p + 2) fSum m;
        (fSum, m) \<leftarrow> dev_step fMean (p + 3) fSum m;
        dev_loop4 fMean (k - 1) (p + 4) fSum m
      }"
    using pos by (subst dev_loop4.simps) simp
  show ?case
    unfolding unfold k block_4_step block_4
    by (simp add: dev_step_eq reads_4 ih reads_reads split: option.split)
qed


lemma unat_split4: "4 * unat (drop_bit 2 (w::uint32_t)) + unat (w mod 4) = unat w"
  by (simp add: drop_bit_eq_div unat_div unat_mod)

lemma pass1_eq:
  "pass1 tgt p bs m =
     (case block (mem m) p (unat bs) of
        None \<Rightarrow> None
      | Some xs \<Rightarrow> Some (p + unat bs, foldl f32_add f32_zero xs, reads p (unat bs) m))"
proof (cases "unrolled tgt")
  case False
  then show ?thesis by (simp add: pass1_def sum_loop1_eq)
next
  case True
  have blk: "block (mem m) p (unat bs) =
      (case block (mem m) p (4 * unat (drop_bit 2 bs)) of
         None \<Rightarrow> None
       | Some xs \<Rightarrow>
           (case block (mem m) (p + 4 * unat (drop_bit 2 bs)) (unat (bs mod 4)) of
              None \<Rightarrow> None
            | Some ys \<Rightarrow> Some (xs @ ys)))"
    using block_add [of "mem m" p "4 * unat (drop_bit 2 bs)" "unat (bs mod 4)"]
    by (simp only: unat_split4)
  have rd: "reads (p + 4 * unat (drop_bit 2 bs)) (unat (bs mod 4)) (reads p (4 * unat (drop_bit 2 bs)) m)
      = reads p (unat bs) m"
    by (simp only: reads_reads unat_split4)
  have pt: "p + 4 * unat (drop_bit 2 bs) + unat (bs mod 4) = p + unat bs"
    using unat_split4 [of bs] by linarith
  from True show ?thesis
    unfolding pass1_def blk
    by (simp add: sum_loop4_eq sum_loop1_eq rd pt split: option.split)
qed

lemma pass2_eq:
  "pass2 tgt fMean p bs m =
     (case block (mem m) p (unat bs) of
        None \<Rightarrow> None
      | Some xs \<Rightarrow> Some (p + unat bs, foldl (sq_dev fMean) f32_zero xs, reads p (unat bs) m))"
proof (cases "unrolled tgt")
  case False
  then show ?thesis by (simp add: pass2_def dev_loop1_eq)
next
  case True
  have blk: "block (mem m) p (unat bs) =
      (case block (mem m) p (4 * unat (drop_bit 2 bs)) of
         None \<Rightarrow> None
       | Some xs \<Rightarrow>
           (case block (mem m) (p + 4 * unat (drop_bit 2 bs)) (unat (bs mod 4)) of
              None \<Rightarrow> None
            | Some ys \<Rightarrow> Some (xs @ ys)))"
    using block_add [of "mem m" p "4 * unat (drop_bit 2 bs)" "unat (bs mod 4)"]
    by (simp only: unat_split4)
  have rd: "reads (p + 4 * unat (drop_bit 2 bs)) (unat (bs mod 4)) (reads p (4 * unat (drop_bit 2 bs)) m)
      = reads p (unat bs) m"
    by (simp only: reads_reads unat_split4)
  have pt: "p + 4 * unat (drop_bit 2 bs) + unat (bs mod 4) = p + unat bs"
    using unat_split4 [of bs] by linarith
  from True show ?thesis
    unfolding pass2_def blk
    by (simp add: dev_loop4_eq dev_loop1_eq rd pt split: option.split)
qed

lemma arm_var_f32_eq:
  "arm_var_f32 tgt p bs r m =
     (if bs \<le> 1 then store r f32_zero m
      else (case block (mem m) p (unat bs) of
              None \<Rightarrow> None
            | Some xs \<Rightarrow> store r (var_of xs bs) (reads p (unat bs) (reads p (unat bs) m))))"
  by (simp add: arm_var_f32_def pass1_eq pass2_eq var_of_def mean_of_def Let_def split: option.split)


section \<open>Blocks of memory and evaluation\<close>

lemma block_eqI:
  "length xs = n \<Longrightarrow> (\<And>i. i < n \<Longrightarrow> h (p + i) = Some (xs ! i)) \<Longrightarrow> block h p n = Some xs"
proof (induction n arbitrary: p xs)
  case 0
  then show ?case by simp
next
  case (Suc n)
  then obtain y ys where xs: "xs = y # ys" and len: "length ys = n"
    by (cases xs) auto
  have "h p = Some y" using Suc.prems(2) [of 0] xs by simp
  moreover have "block h (Suc p) n = Some ys"
  proof (rule Suc.IH [OF len])
    fix i assume "i < n"
    then show "h (Suc p + i) = Some (ys ! i)"
      using Suc.prems(2) [of "Suc i"] xs by simp
  qed
  ultimately show ?case by (simp add: xs)
qed

lemma block_nth: "block h p n = Some xs \<Longrightarrow> i < n \<Longrightarrow> h (p + i) = Some (xs ! i)"
proof (induction n arbitrary: p xs i)
  case 0
  then show ?case by simp
next
  case (Suc n)
  then obtain y ys where hp: "h p = Some y" and ys: "block h (Suc p) n = Some ys" and xs: "xs = y # ys"
    by (auto split: option.splits)
  show ?case
  proof (cases i)
    case 0
    with hp xs show ?thesis by simp
  next
    case (Suc j)
    with Suc.prems(2) have "j < n" by simp
    from Suc.IH [OF ys this] Suc xs show ?thesis by simp
  qed
qed

lemma block_mem_of_take: "n \<le> length xs \<Longrightarrow> block (mem_of p xs) p n = Some (take n xs)"
  by (rule block_eqI) (simp_all add: mem_of_def)

lemma block_mem_of_upd:
  "length xs = n \<Longrightarrow> r < p \<or> p + n \<le> r \<Longrightarrow>
   block ((mem_of p xs)(r \<mapsto> v)) p n = Some xs"
  by (rule block_eqI) (auto simp: mem_of_def)

lemma block_upd_other:
  assumes "block h p n = Some xs" and "r < p \<or> p + n \<le> r"
  shows "block (h(r \<mapsto> v)) p n = Some xs"
proof (rule block_eqI)
  show "length xs = n" using assms(1) by (rule block_length)
next
  fix i assume "i < n"
  with assms show "(h(r \<mapsto> v)) (p + i) = Some (xs ! i)"
    by (auto simp: block_nth)
qed

lemma store_eq:
  "mem m a \<noteq> None \<Longrightarrow>
   store a v m = Some (m\<lparr>mem := (mem m)(a \<mapsto> v), wr_log := wr_log m @ [a]\<rparr>)"
  by (auto simp: store_def)

text \<open>Evaluation of the arithmetic on literals: the digits of a numeral are counted one
  binary digit at a time.\<close>

lemma bitlen_0: "bitlen 0 = 0"
  by (simp add: bitlen.simps)

lemma bitlen_1: "bitlen 1 = 1"
  by (simp add: bitlen.simps)

lemma bitlen_Bit0: "bitlen (numeral (Num.Bit0 k)) = Suc (bitlen (numeral k))"
  by (subst bitlen.simps) simp

lemma bitlen_Bit1: "bitlen (numeral (Num.Bit1 k)) = Suc (bitlen (numeral k))"
  by (subst bitlen.simps) simp

lemmas f32_eval = f32_of_u32_def f32_sub_def f32_one_def f32_zero_def round_f32_def round_signed_def
  shift_of_def rne_def pack_def bitlen_0 bitlen_1 bitlen_Bit0 bitlen_Bit1 mag_def sval_def

lemma mem_machine_of [simp]: "mem (machine_of h) = h"
  by (simp add: machine_of_def)

lemma rd_log_machine_of [simp]: "rd_log (machine_of h) = []"
  by (simp add: machine_of_def)

lemma wr_log_machine_of [simp]: "wr_log (machine_of h) = []"
  by (simp add: machine_of_def)

lemma result_at_store:
  "mem m a \<noteq> None \<Longrightarrow> result_at a (store a v m) = Some v"
  by (simp add: store_eq result_at_def)

lemma result_at_call:
  assumes "1 < blockSize" and "block (mem m) pSrc (unat blockSize) = Some xs"
    and "mem m pResult \<noteq> None"
  shows "result_at pResult (arm_var_f32 tgt pSrc blockSize pResult m) = Some (var_of xs blockSize)"
  using assms by (simp add: arm_var_f32_eq result_at_store not_le [symmetric])

lemma f32_of_u32_small:
  "f32_of_u32 1 = Finite False 127 0" "f32_of_u32 2 = Finite False 128 0"
  "f32_of_u32 3 = Finite False 128 4194304"
  by (simp_all add: f32_eval)

text \<open>An accumulator that no element changes is the result of the fold.\<close>

lemma foldl_absorb: "(\<And>x. x \<in> set xs \<Longrightarrow> f s x = s) \<Longrightarrow> foldl f s xs = s"
  by (induction xs) simp_all

section \<open>Facts about the arithmetic\<close>

subsection \<open>NaN is absorbing\<close>

lemma f32_add_NaN_right [simp]: "f32_add x NaN = NaN"
  by (cases x) simp_all

lemma f32_sub_NaN_right [simp]: "f32_sub x NaN = NaN"
  by (simp add: f32_sub_def)

lemma sq_dev_NaN [simp]: "sq_dev NaN acc x = NaN"
  by (simp add: sq_dev_def)

lemma foldl_add_from_NaN: "foldl f32_add NaN xs = NaN"
  by (induction xs) simp_all

lemma foldl_add_NaN: "NaN \<in> set xs \<Longrightarrow> foldl f32_add s xs = NaN"
  by (induction xs arbitrary: s) (auto simp: foldl_add_from_NaN)

lemma foldl_sq_dev_from_NaN: "foldl (sq_dev NaN) NaN xs = NaN"
  by (induction xs) simp_all

lemma foldl_sq_dev_NaN: "xs \<noteq> [] \<Longrightarrow> foldl (sq_dev NaN) s xs = NaN"
  by (cases xs) (simp_all add: foldl_sq_dev_from_NaN)

lemma var_of_NaN: "NaN \<in> set xs \<Longrightarrow> var_of xs blockSize = NaN"
proof -
  assume nan: "NaN \<in> set xs"
  then have "xs \<noteq> []" by auto
  moreover from nan have "mean_of xs blockSize = NaN"
    by (simp add: mean_of_def foldl_add_NaN)
  ultimately show ?thesis
    by (simp add: var_of_def foldl_sq_dev_NaN)
qed

subsection \<open>Rounding is bounded below\<close>

lemma bitlen_bounds: "0 < n \<Longrightarrow> 2 ^ (bitlen n - 1) \<le> n \<and> n < 2 ^ bitlen n"
proof (induction n rule: bitlen.induct)
  case (1 n)
  show ?case
  proof (cases "n = 1")
    case True
    then show ?thesis by (simp add: bitlen_1)
  next
    case False
    with "1.prems" have half: "0 < n div 2" by simp
    from "1.IH" [OF _ half] "1.prems"
    have ih: "2 ^ (bitlen (n div 2) - 1) \<le> n div 2" "n div 2 < 2 ^ bitlen (n div 2)"
      by simp_all
    have bl: "bitlen n = Suc (bitlen (n div 2))"
      using "1.prems" by (subst bitlen.simps) simp
    have pos: "0 < bitlen (n div 2)"
      using half by (subst bitlen.simps) simp
    then have low: "(2::int) ^ (bitlen n - 1) = 2 * 2 ^ (bitlen (n div 2) - 1)"
      by (cases "bitlen (n div 2)") (simp_all add: bl)
    have high: "(2::int) ^ bitlen n = 2 * 2 ^ bitlen (n div 2)"
      by (simp add: bl)
    have "2 * (n div 2) \<le> n" "n < 2 * (n div 2) + 2" by presburger+
    with ih show ?thesis unfolding low high by linarith
  qed
qed

lemma bitlen_gt: "2 ^ k \<le> n \<Longrightarrow> k < bitlen n"
proof -
  assume k: "(2::int) ^ k \<le> n"
  then have "0 < n" by (smt (verit) zero_less_power)
  then have "n < 2 ^ bitlen n" by (simp add: bitlen_bounds)
  with k have "(2::int) ^ k < 2 ^ bitlen n" by linarith
  then show ?thesis by simp
qed

lemma rne_ge: "0 < d \<Longrightarrow> p div d \<le> rne p d"
  by (simp add: rne_def)

lemma rne_zero: "0 < d \<Longrightarrow> rne 0 d = 0"
  by (simp add: rne_def)

lemma round_f32_zero: "0 < q \<Longrightarrow> round_f32 s 0 q = Finite s 0 0"
  by (simp add: round_f32_def shift_of_def rne_zero pack_def)

lemma pack_at_least:
  assumes "2 ^ k \<le> m * 2 ^ sh" and "sh = 0 \<or> 2 ^ 23 \<le> m"
  shows "at_least k (pack False m sh)"
proof -
  have "0 \<le> m" using assms(1)
    by (smt (verit) mult_nonneg_nonneg zero_less_power mult_less_0_iff)
  consider "m < 2 ^ 23" | "m = 2 ^ 24" | "2 ^ 23 \<le> m" "m \<noteq> 2 ^ 24" by fastforce
  then show ?thesis
  proof cases
    case 1
    with assms(2) have "sh = 0" by auto
    with 1 assms(1) \<open>0 \<le> m\<close> show ?thesis by (simp add: pack_def mag_def)
  next
    case 2
    with assms(1) show ?thesis by (simp add: pack_def mag_def)
  next
    case 3
    with assms(1) show ?thesis by (simp add: pack_def mag_def)
  qed
qed

lemma le_div_pow: "(a::int) * 2 ^ sh \<le> n \<Longrightarrow> a \<le> n div 2 ^ sh"
proof -
  assume "a * 2 ^ sh \<le> n"
  then have "a * 2 ^ sh div 2 ^ sh \<le> n div 2 ^ sh"
    by (intro zdiv_mono1) simp_all
  then show ?thesis by simp
qed

lemma round_at_least:
  assumes "0 < q" and "2 ^ k * q \<le> p"
  shows "at_least k (round_f32 False p q)"
proof -
  define n where "n = p div q"
  define sh where "sh = shift_of n"
  define m where "m = rne p (q * 2 ^ sh)"
  have n_ge: "2 ^ k \<le> n"
    unfolding n_def using assms by (metis zdiv_mono1 nonzero_mult_div_cancel_right less_irrefl)
  have "p div (q * 2 ^ sh) = n div 2 ^ sh"
    unfolding n_def by (simp add: zdiv_zmult2_eq)
  moreover have "p div (q * 2 ^ sh) \<le> m"
    unfolding m_def using assms(1) by (intro rne_ge) simp
  ultimately have m_ge: "n div 2 ^ sh \<le> m" by simp
  have goal: "2 ^ k \<le> m * 2 ^ sh \<and> (sh = 0 \<or> 2 ^ 23 \<le> m)"
  proof (cases "n < 2 ^ 24")
    case True
    then have "sh = 0" by (simp add: sh_def shift_of_def)
    with m_ge n_ge show ?thesis by simp
  next
    case False
    then have big: "2 ^ 24 \<le> n" by simp
    then have len: "24 < bitlen n" by (rule bitlen_gt)
    from False have sh: "sh = bitlen n - 24" by (simp add: sh_def shift_of_def)
    from big have "0 < n" by simp
    then have low: "2 ^ (bitlen n - 1) \<le> n" using bitlen_bounds [of n] by blast
    from len sh have split: "bitlen n - 1 = 23 + sh" by simp
    have "(2::int) ^ 23 * 2 ^ sh \<le> n"
      using low unfolding split by (simp add: power_add)
    then have "2 ^ 23 \<le> n div 2 ^ sh" by (rule le_div_pow)
    with m_ge have m23: "2 ^ 23 \<le> m" by simp
    from n_ge have "k < bitlen n" by (rule bitlen_gt)
    with split have "k \<le> 23 + sh" by simp
    then have "(2::int) ^ k \<le> 2 ^ (23 + sh)" by (intro power_increasing) simp_all
    also have "\<dots> = 2 ^ 23 * 2 ^ sh" by (simp add: power_add)
    also from m23 have "\<dots> \<le> m * 2 ^ sh" by (intro mult_right_mono) simp_all
    finally show ?thesis using m23 by simp
  qed
  have "round_f32 False p q = pack False m sh"
    by (simp add: round_f32_def m_def sh_def n_def)
  with goal show ?thesis by (simp add: pack_at_least)
qed

lemma f32_of_u32_at_least: "1 < w \<Longrightarrow> at_least 150 (f32_of_u32 w)"
proof -
  assume "1 < w"
  then have "2 \<le> uint w" by (simp add: word_less_def) 
  then have "2 ^ 150 * 1 \<le> uint w * 2 ^ 149" by simp
  then show ?thesis unfolding f32_of_u32_def by (intro round_at_least) simp_all
qed

lemma sub_one_at_least: "at_least 150 x \<Longrightarrow> at_least 0 (f32_sub x f32_one)"
proof (cases x)
  case (Finite s e f)
  assume "at_least 150 x"
  with Finite have s: "\<not> s" and big: "2 ^ 150 \<le> mag e f" by simp_all
  have one: "mag 127 0 = 2 ^ 149" by (simp add: mag_def)
  from big have pos: "0 < mag e f - 2 ^ 149" by simp
  then have "at_least 0 (round_f32 False (mag e f - 2 ^ 149) 1)"
    by (intro round_at_least) simp_all
  with pos s Finite one show ?thesis
    by (simp add: f32_sub_def f32_one_def sval_def round_signed_def)
next
  case (Infinity s)
  assume "at_least 150 x"
  with Infinity show ?thesis by (simp add: f32_sub_def f32_one_def)
next
  case NaN
  assume "at_least 150 x"
  with NaN show ?thesis by simp
qed

lemma zero_div_positive: "at_least 0 d \<Longrightarrow> f32_div f32_zero d = f32_zero"
proof (cases d)
  case (Finite s e f)
  assume "at_least 0 d"
  with Finite have "\<not> s" and "0 < mag e f" by simp_all
  with Finite show ?thesis
    by (simp add: f32_zero_def mag_def [of 0 0] round_f32_zero)
qed (simp_all add: f32_zero_def)

lemma zero_div_divisor: "1 < blockSize \<Longrightarrow> f32_div f32_zero (f32_sub (f32_of_u32 blockSize) f32_one) = f32_zero"
  by (intro zero_div_positive sub_one_at_least f32_of_u32_at_least)

lemma sq_dev_same_value: "same_value mu c \<Longrightarrow> sq_dev mu f32_zero c = f32_zero"
proof (cases mu; cases c)
  fix t g h s e f
  assume mu: "mu = Finite t g h" and c: "c = Finite s e f" and "same_value mu c"
  then have eq: "sval t g h = sval s e f" by simp
  then have "sval s e f + sval (\<not> t) g h = 0" by (auto simp: sval_def)
  then obtain b where sub: "f32_sub c mu = Finite b 0 0"
    by (simp add: f32_sub_def mu c)
  have "mag 0 0 = 0" by (simp add: mag_def)
  then have "f32_mul (Finite b 0 0) (Finite b 0 0) = Finite False 0 0"
    by (simp add: round_f32_zero)
  with sub show ?thesis
    by (simp add: sq_dev_def f32_zero_def sval_def mag_def)
qed simp_all

lemma var_of_constant:
  assumes "1 < blockSize" and "same_value (mean_of (replicate n c) blockSize) c"
  shows "var_of (replicate n c) blockSize = f32_zero"
proof -
  have "foldl (sq_dev (mean_of (replicate n c) blockSize)) f32_zero (replicate n c) = f32_zero"
    by (rule foldl_absorb) (simp add: sq_dev_same_value [OF assms(2)])
  with assms(1) show ?thesis by (simp add: var_of_def zero_div_divisor)
qed


section \<open>The two-pass variance\<close>

text \<open>The vector \<open>1, 0, \<dots>, 0\<close> of \<open>2 ^ 24 + 1\<close> elements: adding a zero changes neither sum.\<close>

lemma length_big_vector: "length big_vector = 16777217"
  by (simp add: big_vector_def)

lemma sum_big_vector: "foldl f32_add f32_zero big_vector = f32_one"
proof -
  have first: "f32_add f32_zero f32_one = f32_one" by (simp add: f32_eval)
  have rest: "f32_add f32_one f32_zero = f32_one" by (simp add: f32_eval)
  have "foldl f32_add f32_one (replicate 16777216 f32_zero) = f32_one"
    by (rule foldl_absorb) (simp add: rest)
  with first show ?thesis by (simp add: big_vector_def)
qed

lemma mean_big_vector: "mean_of big_vector 16777217 = Finite False 103 0"
  unfolding mean_of_def sum_big_vector by (simp add: f32_eval)

lemma sq_dev_big_vector:
  "foldl (sq_dev (Finite False 103 0)) f32_zero big_vector = Finite False 126 8388606"
proof -
  have first: "sq_dev (Finite False 103 0) f32_zero f32_one = Finite False 126 8388606"
    by (simp add: sq_dev_def f32_eval)
  have rest: "sq_dev (Finite False 103 0) (Finite False 126 8388606) f32_zero = Finite False 126 8388606"
    by (simp add: sq_dev_def f32_eval)
  have "foldl (sq_dev (Finite False 103 0)) (Finite False 126 8388606) (replicate 16777216 f32_zero) =
      Finite False 126 8388606"
    by (rule foldl_absorb) (simp add: rest)
  with first show ?thesis by (simp add: big_vector_def)
qed

lemma var_of_big_vector: "var_of big_vector 16777217 = Finite False 102 8388607"
  unfolding var_of_def mean_big_vector sq_dev_big_vector by (simp add: f32_eval)

lemma spec_var_big_vector: "spec_var big_vector 16777217 = Finite False 102 8388606"
  unfolding spec_var_def mean_big_vector sq_dev_big_vector by (simp add: f32_eval)

text \<open>
  Claim C1.  For every input vector and every \<^verbatim>\<open>blockSize\<close> of at least 2, the kernel
  writes the unbiased sample variance computed by the two-pass method: the mean is the
  left-to-right single-precision sum of the first \<^verbatim>\<open>blockSize\<close> elements divided by
  \<^verbatim>\<open>blockSize\<close>, and the result is the left-to-right single-precision sum of the
  squared deviations divided by \<open>blockSize - 1\<close>.

  As stated the claim fails on the divisor.  The source divides by
  \<^verbatim>\<open>(float32_t)(blockSize - 1.0f)\<close>: \<^verbatim>\<open>blockSize\<close> is converted to single precision first
  and 1 is subtracted in single precision.  For \<open>blockSize = 2 ^ 24 + 1\<close> the conversion
  rounds to \<open>2 ^ 24\<close> and the divisor is \<open>2 ^ 24 - 1\<close>, where \<open>blockSize - 1\<close> is
  \<open>2 ^ 24\<close>.  On the vector \<open>1, 0, \<dots>, 0\<close> of that length the sum of squared deviations
  is \<open>1 - 2 ^ - 23\<close>, and the two quotients differ in the last place.
\<close>

theorem divisor_counterexample:
  "block (mem (machine_of ((mem_of 0 big_vector)(16777217 \<mapsto> f32_zero)))) 0 (unat (16777217::uint32_t)) =
     Some big_vector \<and>
   result_at 16777217
     (arm_var_f32 ARM_MATH_CM4 0 16777217 16777217
        (machine_of ((mem_of 0 big_vector)(16777217 \<mapsto> f32_zero)))) =
     Some (Finite False 102 8388607) \<and>
   spec_var big_vector 16777217 = Finite False 102 8388606 \<and>
   result_at 16777217
     (arm_var_f32 ARM_MATH_CM4 0 16777217 16777217
        (machine_of ((mem_of 0 big_vector)(16777217 \<mapsto> f32_zero)))) \<noteq>
     Some (spec_var big_vector 16777217)"
proof -
  let ?m = "machine_of ((mem_of 0 big_vector)(16777217 \<mapsto> f32_zero))"
  have blk: "block (mem ?m) 0 (unat (16777217::uint32_t)) = Some big_vector"
    unfolding mem_machine_of by (rule block_mem_of_upd) (simp_all add: length_big_vector)
  have res: "mem ?m 16777217 \<noteq> None" by simp
  have "(1::uint32_t) < 16777217" by simp
  from result_at_call [OF this blk res]
  have call: "result_at 16777217 (arm_var_f32 ARM_MATH_CM4 0 16777217 16777217 ?m) =
      Some (Finite False 102 8388607)"
    by (simp only: var_of_big_vector)
  from blk call show ?thesis
    unfolding spec_var_big_vector by simp
qed

text \<open>
  Claim C1, amended.  For every input vector and every \<^verbatim>\<open>blockSize\<close> of at least 2, the
  kernel writes the two-pass variance with every operation in single precision: the mean
  is the left-to-right sum (from \<open>+0.0\<close>) of the first \<^verbatim>\<open>blockSize\<close> elements divided by
  \<^verbatim>\<open>blockSize\<close> converted to single precision, and the result is the left-to-right sum
  (from \<open>+0.0\<close>) of the squared deviations divided by the single-precision difference of
  the converted \<^verbatim>\<open>blockSize\<close> and 1.
\<close>

theorem two_pass_variance:
  assumes "1 < blockSize"
    and "block (mem m) pSrc (unat blockSize) = Some xs"
    and "mem m pResult \<noteq> None"
  shows "result_at pResult (arm_var_f32 tgt pSrc blockSize pResult m) =
     Some (f32_div
             (foldl (\<lambda>acc x. f32_add acc
                        (f32_mul (f32_sub x (f32_div (foldl f32_add f32_zero xs) (f32_of_u32 blockSize)))
                                 (f32_sub x (f32_div (foldl f32_add f32_zero xs) (f32_of_u32 blockSize)))))
                f32_zero xs)
             (f32_sub (f32_of_u32 blockSize) f32_one))"
proof -
  have "sq_dev mu = (\<lambda>acc x. f32_add acc (f32_mul (f32_sub x mu) (f32_sub x mu)))" for mu
    by (simp add: sq_dev_def fun_eq_iff)
  with result_at_call [OF assms] show ?thesis
    by (simp add: var_of_def mean_of_def)
qed

theorem two_pass_variance_witness:
  "(1::uint32_t) < 2 \<and>
   block (mem (machine_of ((mem_of 0 [f32_of_u32 1, f32_of_u32 3])(2 \<mapsto> NaN)))) 0 (unat (2::uint32_t)) =
     Some [f32_of_u32 1, f32_of_u32 3] \<and>
   mem (machine_of ((mem_of 0 [f32_of_u32 1, f32_of_u32 3])(2 \<mapsto> NaN))) 2 \<noteq> None \<and>
   result_at 2 (arm_var_f32 ARM_MATH_CM0_FAMILY 0 2 2
       (machine_of ((mem_of 0 [f32_of_u32 1, f32_of_u32 3])(2 \<mapsto> NaN)))) = Some (f32_of_u32 2)"
proof -
  let ?xs = "[f32_of_u32 1, f32_of_u32 3]"
  let ?m = "machine_of ((mem_of 0 ?xs)(2 \<mapsto> NaN))"
  have h1: "(1::uint32_t) < 2" by simp
  have h2: "block (mem ?m) 0 (unat (2::uint32_t)) = Some ?xs"
    unfolding mem_machine_of by (rule block_mem_of_upd) simp_all
  have h3: "mem ?m 2 \<noteq> None" by simp
  have "f32_of_u32 1 = Finite False 127 0" "f32_of_u32 2 = Finite False 128 0"
    "f32_of_u32 3 = Finite False 128 4194304"
    by (simp_all add: f32_eval)
  with two_pass_variance [OF h1 h2 h3, of ARM_MATH_CM0_FAMILY] h1 h2 h3
  show ?thesis by (simp add: f32_eval)
qed

section \<open>Degenerate sizes: the value\<close>

text \<open>
  Claim C2.  For every input vector and for \<^verbatim>\<open>blockSize\<close> equal to 0 or 1, the kernel
  writes exactly \<open>0\<close> to \<^verbatim>\<open>*pResult\<close>, regardless of the input contents: the call
  returns the machine in which the result cell holds \<open>+0.0\<close> and nothing else has
  changed, whatever the memory holds at \<^verbatim>\<open>pSrc\<close>.  The result cell has to be valid
  storage.
\<close>

theorem degenerate_size_writes_zero:
  assumes "blockSize = 0 \<or> blockSize = 1" and "mem m pResult \<noteq> None"
  shows "arm_var_f32 tgt pSrc blockSize pResult m =
           Some (m\<lparr>mem := (mem m)(pResult \<mapsto> f32_zero), wr_log := wr_log m @ [pResult]\<rparr>)"
  using assms by (auto simp: arm_var_f32_def store_def)

theorem degenerate_size_writes_zero_witness:
  "((1::uint32_t) = 0 \<or> (1::uint32_t) = 1) \<and>
   mem \<lparr>mem = [7 \<mapsto> NaN, 8 \<mapsto> Infinity True], rd_log = [], wr_log = []\<rparr> 8 \<noteq> None \<and>
   arm_var_f32 ARM_MATH_CM4 7 1 8 \<lparr>mem = [7 \<mapsto> NaN, 8 \<mapsto> Infinity True], rd_log = [], wr_log = []\<rparr> =
     Some \<lparr>mem = [7 \<mapsto> NaN, 8 \<mapsto> f32_zero], rd_log = [], wr_log = [8]\<rparr>"
  using degenerate_size_writes_zero
    [of 1 "\<lparr>mem = [7 \<mapsto> NaN, 8 \<mapsto> Infinity True], rd_log = [], wr_log = []\<rparr>" 8 ARM_MATH_CM4 7]
  by simp

section \<open>The two build configurations\<close>

text \<open>
  Claim C3.  For every input vector and \<^verbatim>\<open>blockSize\<close>, the four-way unrolled build
  (Cortex-M4 and M7) and the element-at-a-time build (Cortex-M0 and M3) produce identical
  results: each pass accumulates left to right in both, so any two targets give the same
  outcome of each pass and of the call, on every machine (the same memory, the same
  accesses, and the same failure when a cell of the block is not valid).  Values are
  compared as bit patterns, up to the payload of a NaN.
\<close>

theorem build_paths_agree:
  "arm_var_f32 tgt pSrc blockSize pResult m = arm_var_f32 tgt' pSrc blockSize pResult m \<and>
   pass1 tgt pSrc blockSize m = pass1 tgt' pSrc blockSize m \<and>
   pass2 tgt fMean pSrc blockSize m = pass2 tgt' fMean pSrc blockSize m"
  by (simp only: arm_var_f32_eq pass1_eq pass2_eq)

section \<open>The worked scenario\<close>

text \<open>The scenario evaluated step by step on the literals.\<close>

lemma f32_of_u32_scenario:
  "f32_of_u32 4 = Finite False 129 0" "f32_of_u32 5 = Finite False 129 2097152"
  "f32_of_u32 7 = Finite False 129 6291456" "f32_of_u32 8 = Finite False 130 0"
  "f32_of_u32 9 = Finite False 130 1048576" "f32_of_u32 32 = Finite False 132 0"
  "f32_of_u32 40 = Finite False 132 2097152"
  by (simp_all add: f32_eval)

lemma scenario_literals:
  "scenario = [Finite False 128 0, Finite False 129 0, Finite False 129 0, Finite False 129 0,
     Finite False 129 2097152, Finite False 129 2097152, Finite False 129 6291456,
     Finite False 130 1048576]"
  by (simp add: scenario_def f32_of_u32_small f32_of_u32_scenario)

lemma scenario_sum: "foldl f32_add f32_zero scenario = f32_of_u32 40"
  unfolding scenario_literals f32_of_u32_scenario by (simp add: f32_eval)

lemma scenario_mean: "mean_of scenario 8 = f32_of_u32 5"
  unfolding mean_of_def scenario_sum unfolding f32_of_u32_scenario by (simp add: f32_eval)

lemma scenario_sq_dev: "foldl (sq_dev (f32_of_u32 5)) f32_zero scenario = f32_of_u32 32"
  unfolding scenario_literals f32_of_u32_scenario by (simp add: sq_dev_def f32_eval)

lemma scenario_quotient: "f32_div (f32_of_u32 32) (f32_of_u32 7) = Finite False 129 1198373"
  unfolding f32_of_u32_scenario by (simp add: f32_eval)

lemma scenario_var: "var_of scenario 8 = f32_div (f32_of_u32 32) (f32_of_u32 7)"
  unfolding var_of_def scenario_mean scenario_sq_dev
  unfolding f32_of_u32_scenario by (simp add: f32_eval)

text \<open>
  Claim C4.  For the input vector \<open>2.0, 4.0, 4.0, 4.0, 5.0, 5.0, 7.0, 9.0\<close> with
  \<^verbatim>\<open>blockSize = 8\<close>, the kernel computes the mean \<open>5.0\<close> and the sum of squared
  deviations \<open>32.0\<close>, and writes the variance \<open>32.0 / 7\<close> to \<^verbatim>\<open>*pResult\<close>: the first
  pass ends with the sum \<open>40.0\<close>, whose quotient by \<open>8.0\<close> is \<open>5.0\<close>; the second pass
  ends with \<open>32.0\<close>; and the value written is the single-precision quotient of \<open>32.0\<close>
  by \<open>7.0\<close>, the bit pattern with exponent field 129 and fraction field 1198373
  (about 4.5714288).  This holds wherever the vector and the result cell lie in memory
  and for either build.
\<close>

theorem scenario_of_eight:
  assumes "block (mem m) pSrc 8 = Some scenario" and "mem m pResult \<noteq> None"
  shows "pass1 tgt pSrc 8 m = Some (pSrc + 8, f32_of_u32 40, reads pSrc 8 m) \<and>
    f32_div (f32_of_u32 40) (f32_of_u32 8) = f32_of_u32 5 \<and>
    pass2 tgt (f32_of_u32 5) pSrc 8 (reads pSrc 8 m) =
      Some (pSrc + 8, f32_of_u32 32, reads pSrc 8 (reads pSrc 8 m)) \<and>
    result_at pResult (arm_var_f32 tgt pSrc 8 pResult m) =
      Some (f32_div (f32_of_u32 32) (f32_of_u32 7)) \<and>
    f32_div (f32_of_u32 32) (f32_of_u32 7) = Finite False 129 1198373"
proof -
  have u: "unat (8::uint32_t) = 8" by simp
  have p1: "pass1 tgt pSrc 8 m = Some (pSrc + 8, f32_of_u32 40, reads pSrc 8 m)"
    using assms(1) by (simp add: pass1_eq u scenario_sum)
  have mean: "f32_div (f32_of_u32 40) (f32_of_u32 8) = f32_of_u32 5"
    using scenario_mean by (simp add: mean_of_def scenario_sum)
  have p2: "pass2 tgt (f32_of_u32 5) pSrc 8 (reads pSrc 8 m) =
      Some (pSrc + 8, f32_of_u32 32, reads pSrc 8 (reads pSrc 8 m))"
    using assms(1) by (simp add: pass2_eq u scenario_sq_dev)
  have "(1::uint32_t) < 8" by simp
  from result_at_call [OF this, of m pSrc scenario pResult tgt] assms
  have res: "result_at pResult (arm_var_f32 tgt pSrc 8 pResult m) =
      Some (f32_div (f32_of_u32 32) (f32_of_u32 7))"
    by (simp add: u scenario_var)
  from p1 mean p2 res scenario_quotient show ?thesis by simp
qed

theorem scenario_of_eight_witness:
  "block (mem (machine_of ((mem_of 0 scenario)(8 \<mapsto> NaN)))) 0 8 = Some scenario \<and>
   mem (machine_of ((mem_of 0 scenario)(8 \<mapsto> NaN))) 8 \<noteq> None \<and>
   result_at 8 (arm_var_f32 ARM_MATH_CM4 0 8 8 (machine_of ((mem_of 0 scenario)(8 \<mapsto> NaN)))) =
     Some (Finite False 129 1198373)"
proof -
  let ?m = "machine_of ((mem_of 0 scenario)(8 \<mapsto> NaN))"
  have h1: "block (mem ?m) 0 8 = Some scenario"
    unfolding mem_machine_of by (rule block_mem_of_upd) (simp_all add: scenario_def)
  have h2: "mem ?m 8 \<noteq> None" by simp
  from scenario_of_eight [OF h1 h2, of ARM_MATH_CM4] h1 h2 show ?thesis by simp
qed

section \<open>NaN propagation\<close>

text \<open>
  Claim C5.  For every input vector and \<^verbatim>\<open>blockSize\<close>, if any of the first
  \<^verbatim>\<open>blockSize\<close> input elements is NaN, the value written to \<^verbatim>\<open>*pResult\<close> is NaN.

  As stated the claim fails for \<^verbatim>\<open>blockSize = 1\<close>: the guard \<^verbatim>\<open>blockSize <= 1u\<close> writes
  \<open>0\<close> without looking at the element, also when that element is NaN.
\<close>

theorem nan_dropped_counterexample:
  "block (mem (machine_of (mem_of 0 [NaN, f32_one]))) 0 (unat (1::uint32_t)) = Some [NaN] \<and>
   result_at 1 (arm_var_f32 ARM_MATH_CM4 0 1 1 (machine_of (mem_of 0 [NaN, f32_one]))) = Some f32_zero \<and>
   f32_zero \<noteq> NaN"
  by (simp add: arm_var_f32_def store_def result_at_def mem_of_def machine_of_def f32_zero_def)

text \<open>
  Claim C5, amended.  For every input vector and every \<^verbatim>\<open>blockSize\<close> of at least 2, if
  any of the first \<^verbatim>\<open>blockSize\<close> input elements is NaN, the value written to
  \<^verbatim>\<open>*pResult\<close> is NaN.
\<close>

theorem nan_propagates:
  assumes "1 < blockSize"
    and "block (mem m) pSrc (unat blockSize) = Some xs"
    and "mem m pResult \<noteq> None"
    and "NaN \<in> set xs"
  shows "result_at pResult (arm_var_f32 tgt pSrc blockSize pResult m) = Some NaN"
  using result_at_call [OF assms(1-3)] assms(4) by (simp add: var_of_NaN)

theorem nan_propagates_witness:
  "(1::uint32_t) < 3 \<and>
   block (mem (machine_of (mem_of 0 [f32_one, NaN, f32_one, f32_zero]))) 0 (unat (3::uint32_t)) =
     Some [f32_one, NaN, f32_one] \<and>
   mem (machine_of (mem_of 0 [f32_one, NaN, f32_one, f32_zero])) 3 \<noteq> None \<and>
   NaN \<in> set [f32_one, NaN, f32_one] \<and>
   result_at 3 (arm_var_f32 ARM_MATH_CM0_FAMILY 0 3 3 (machine_of (mem_of 0 [f32_one, NaN, f32_one, f32_zero]))) =
     Some NaN"
proof -
  let ?m = "machine_of (mem_of 0 [f32_one, NaN, f32_one, f32_zero])"
  have h1: "(1::uint32_t) < 3" by simp
  have h2: "block (mem ?m) 0 (unat (3::uint32_t)) = Some [f32_one, NaN, f32_one]"
    unfolding mem_machine_of by (rule block_eqI) (simp_all add: mem_of_def nth_Cons')
  have h3: "mem ?m 3 \<noteq> None" by (simp add: mem_of_def)
  have h4: "NaN \<in> set [f32_one, NaN, f32_one]" by simp
  from nan_propagates [OF h1 h2 h3 h4, of ARM_MATH_CM0_FAMILY] h1 h2 h3 h4
  show ?thesis by simp
qed

section \<open>Two elements\<close>

text \<open>For a block of two the kernel's computation is \<open>pair_var\<close>; when every operation
  is exact its value is the closed formula.  The pair \<open>1.0, 3.0\<close> is such a case.\<close>

lemma divisor_of_two: "f32_sub (f32_of_u32 2) f32_one = f32_one"
  by (simp add: f32_eval)

lemma var_of_pair: "var_of [a, b] 2 = pair_var a b"
  by (simp add: var_of_def mean_of_def sq_dev_def pair_var_def pair_mean_def divisor_of_two)

lemma fval_consts: "fval f32_zero = 0" "fval f32_one = 1" "fval (f32_of_u32 2) = 2"
  by (simp_all add: f32_zero_def f32_one_def f32_of_u32_small sval_def mag_def)

lemma pair_exact_value:
  assumes "pair_exact a b"
  shows "is_finite (pair_var a b) \<and> fval (pair_var a b) = (fval a - fval b)\<^sup>2 / 2"
proof -
  let ?mu = "pair_mean a b"
  let ?da = "f32_sub a ?mu" and ?db = "f32_sub b ?mu"
  from assms have mu: "fval ?mu = (fval a + fval b) / 2"
    by (simp add: pair_exact_def exact_op_def pair_mean_def fval_consts)
  from assms have da: "fval ?da = fval a - fval ?mu" and db: "fval ?db = fval b - fval ?mu"
    by (simp_all add: pair_exact_def exact_op_def)
  from assms have fin: "is_finite (pair_var a b)"
    by (simp add: pair_exact_def exact_op_def pair_var_def)
  from assms have "fval (pair_var a b) = fval ?da * fval ?da + fval ?db * fval ?db"
    by (simp add: pair_exact_def exact_op_def pair_var_def fval_consts)
  also have "\<dots> = (fval a - fval b)\<^sup>2 / 2"
    unfolding da db mu by (simp add: power2_eq_square field_simps)
  finally show ?thesis using fin by simp
qed

lemma pair_1_3:
  "pair_mean (Finite False 127 0) (Finite False 128 4194304) = Finite False 128 0"
  "pair_var (Finite False 127 0) (Finite False 128 4194304) = Finite False 128 0"
  by (simp_all add: pair_var_def pair_mean_def f32_eval)

lemma steps_1_3:
  "f32_add f32_zero (Finite False 127 0) = Finite False 127 0"
  "f32_add (Finite False 127 0) (Finite False 128 4194304) = Finite False 129 0"
  "f32_div (Finite False 129 0) (Finite False 128 0) = Finite False 128 0"
  "f32_sub (Finite False 127 0) (Finite False 128 0) = Finite True 127 0"
  "f32_sub (Finite False 128 4194304) (Finite False 128 0) = Finite False 127 0"
  "f32_mul (Finite True 127 0) (Finite True 127 0) = Finite False 127 0"
  "f32_mul (Finite False 127 0) (Finite False 127 0) = Finite False 127 0"
  "f32_add (Finite False 127 0) (Finite False 127 0) = Finite False 128 0"
  "f32_div (Finite False 128 0) f32_one = Finite False 128 0"
  by (simp_all add: f32_eval)

lemma pair_exact_1_3: "pair_exact (Finite False 127 0) (Finite False 128 4194304)"
  unfolding pair_exact_def exact_op_def pair_1_3 f32_of_u32_small steps_1_3
  by (simp add: f32_zero_def f32_one_def sval_def mag_def)

text \<open>
  Claim C6.  For every two elements \<open>a\<close> and \<open>b\<close>, a call with \<^verbatim>\<open>blockSize = 2\<close> writes
  exactly \<open>(a - b)\<^sup>2 / 2\<close> to \<^verbatim>\<open>*pResult\<close>.

  As stated the claim fails when the mean rounds.  For \<open>a = 1\<close> and
  \<open>b = 1 + 2 ^ - 23\<close> (the next value after 1) the sum rounds to 2, the mean is 1, the
  deviations are \<open>0\<close> and \<open>2 ^ - 23\<close>, and the kernel writes \<open>2 ^ - 46\<close>, twice the value
  \<open>2 ^ - 47\<close> of the formula, whether the formula is evaluated in single precision or over
  the reals.
\<close>

theorem two_element_counterexample:
  "block (mem (machine_of (mem_of 0 [Finite False 127 0, Finite False 127 1, NaN]))) 0 2 =
     Some [Finite False 127 0, Finite False 127 1] \<and>
   result_at 2 (arm_var_f32 ARM_MATH_CM4 0 2 2
       (machine_of (mem_of 0 [Finite False 127 0, Finite False 127 1, NaN]))) =
     Some (Finite False 81 0) \<and>
   spec_two_sample (Finite False 127 0) (Finite False 127 1) = Finite False 80 0 \<and>
   fval (Finite False 81 0) \<noteq> (fval (Finite False 127 0) - fval (Finite False 127 1))\<^sup>2 / 2"
proof -
  let ?m = "machine_of (mem_of 0 [Finite False 127 0, Finite False 127 1, NaN])"
  have blk: "block (mem ?m) 0 2 = Some [Finite False 127 0, Finite False 127 1]"
    using block_mem_of_take [of 2 "[Finite False 127 0, Finite False 127 1, NaN]" 0] by simp
  have res: "mem ?m 2 \<noteq> None" by (simp add: mem_of_def)
  have mu: "pair_mean (Finite False 127 0) (Finite False 127 1) = Finite False 127 0"
    by (simp add: pair_mean_def f32_eval)
  have var: "pair_var (Finite False 127 0) (Finite False 127 1) = Finite False 81 0"
    unfolding pair_var_def mu by (simp add: f32_eval)
  have spec: "spec_two_sample (Finite False 127 0) (Finite False 127 1) = Finite False 80 0"
    by (simp add: spec_two_sample_def f32_eval)
  have reals: "fval (Finite False 81 0) \<noteq> (fval (Finite False 127 0) - fval (Finite False 127 1))\<^sup>2 / 2"
    by (simp add: sval_def mag_def power2_eq_square)
  have lt: "(1::uint32_t) < 2" and u: "unat (2::uint32_t) = 2" by simp_all
  note result_at_call [OF lt, of ?m 0 _ 2 ARM_MATH_CM4, unfolded u, OF blk res]
  then have "result_at 2 (arm_var_f32 ARM_MATH_CM4 0 2 2 ?m) = Some (Finite False 81 0)"
    unfolding var_of_pair var .
  with blk spec reals show ?thesis by blast
qed

text \<open>
  Claim C6, amended.  For every two elements \<open>a\<close> and \<open>b\<close>, a call with
  \<^verbatim>\<open>blockSize = 2\<close> writes \<open>((a - m)\<^sup>2 + (b - m)\<^sup>2) / 1\<close> with \<open>m = (a + b) / 2\<close>, every
  operation rounded to single precision; whenever \<open>a\<close> and \<open>b\<close> are finite and none of
  these operations rounds or overflows, the value written is exactly \<open>(a - b)\<^sup>2 / 2\<close>.
\<close>

theorem two_element_variance:
  assumes "block (mem m) pSrc 2 = Some [a, b]" and "mem m pResult \<noteq> None"
  shows "result_at pResult (arm_var_f32 tgt pSrc 2 pResult m) = Some (pair_var a b) \<and>
    (pair_exact a b \<longrightarrow>
       is_finite (pair_var a b) \<and> fval (pair_var a b) = (fval a - fval b)\<^sup>2 / 2)"
proof -
  have "(1::uint32_t) < 2" by simp
  from result_at_call [OF this, of m pSrc "[a, b]" pResult tgt] assms
  have "result_at pResult (arm_var_f32 tgt pSrc 2 pResult m) = Some (pair_var a b)"
    by (simp add: var_of_pair)
  with pair_exact_value show ?thesis by blast
qed

theorem two_element_variance_witness:
  "block (mem (machine_of (mem_of 0 [f32_of_u32 1, f32_of_u32 3, NaN]))) 0 2 =
     Some [f32_of_u32 1, f32_of_u32 3] \<and>
   mem (machine_of (mem_of 0 [f32_of_u32 1, f32_of_u32 3, NaN])) 2 \<noteq> None \<and>
   result_at 2 (arm_var_f32 ARM_MATH_CM4 0 2 2 (machine_of (mem_of 0 [f32_of_u32 1, f32_of_u32 3, NaN]))) =
     Some (f32_of_u32 2) \<and>
   pair_exact (f32_of_u32 1) (f32_of_u32 3) \<and>
   fval (f32_of_u32 2) = (fval (f32_of_u32 1) - fval (f32_of_u32 3))\<^sup>2 / 2"
proof -
  let ?m = "machine_of (mem_of 0 [f32_of_u32 1, f32_of_u32 3, NaN])"
  have h1: "block (mem ?m) 0 2 = Some [f32_of_u32 1, f32_of_u32 3]"
    using block_mem_of_take [of 2 "[f32_of_u32 1, f32_of_u32 3, NaN]" 0] by simp
  have h2: "mem ?m 2 \<noteq> None" by (simp add: mem_of_def)
  have ex: "pair_exact (f32_of_u32 1) (f32_of_u32 3)"
    using pair_exact_1_3 by (simp add: f32_of_u32_small)
  have val: "pair_var (f32_of_u32 1) (f32_of_u32 3) = f32_of_u32 2"
    by (simp add: f32_of_u32_small pair_1_3)
  from two_element_variance [OF h1 h2, of ARM_MATH_CM4] h1 h2 ex val
  show ?thesis by simp
qed

section \<open>Constant vectors\<close>

text \<open>
  Claim C7.  For every constant-valued input vector with \<^verbatim>\<open>blockSize\<close> of at least 2,
  the kernel writes exactly \<open>0\<close>, up to floating-point rounding of the mean computation;
  in particular, for the input \<open>1.0, 1.0, 1.0\<close> with \<^verbatim>\<open>blockSize = 3\<close> the result is
  exactly \<open>0.0\<close>.

  As stated the claim fails for a vector whose elements are all \<open>+\<infinity>\<close>: the mean is
  \<open>+\<infinity>\<close>, computed without any rounding, each deviation is \<open>\<infinity> - \<infinity>\<close>, and the
  value written is NaN.
\<close>

theorem constant_infinity_counterexample:
  "block (mem (machine_of (mem_of 0 [Infinity False, Infinity False, f32_zero]))) 0 (unat (2::uint32_t)) =
     Some (replicate 2 (Infinity False)) \<and>
   mean_of (replicate 2 (Infinity False)) 2 = Infinity False \<and>
   result_at 2 (arm_var_f32 ARM_MATH_CM4 0 2 2
       (machine_of (mem_of 0 [Infinity False, Infinity False, f32_zero]))) = Some NaN \<and>
   NaN \<noteq> f32_zero"
proof -
  let ?m = "machine_of (mem_of 0 [Infinity False, Infinity False, f32_zero])"
  have two: "f32_of_u32 2 = Finite False 128 0" by (rule f32_of_u32_small)
  have rep: "replicate 2 (Infinity False) = [Infinity False, Infinity False]"
    by (simp add: numeral_2_eq_2)
  have blk: "block (mem ?m) 0 (unat (2::uint32_t)) = Some (replicate 2 (Infinity False))"
    using block_mem_of_take [of 2 "[Infinity False, Infinity False, f32_zero]" 0]
    by (simp add: rep)
  have res: "mem ?m 2 \<noteq> None" by (simp add: mem_of_def)
  have mean: "mean_of (replicate 2 (Infinity False)) 2 = Infinity False"
    unfolding rep by (simp add: mean_of_def two f32_zero_def)
  have "var_of (replicate 2 (Infinity False)) 2 = NaN"
    unfolding var_of_def mean unfolding rep by (simp add: sq_dev_def f32_sub_def)
  with result_at_call [OF _ blk res, of ARM_MATH_CM4] blk mean show ?thesis
    by (simp add: f32_zero_def)
qed

text \<open>
  Claim C7, amended.  For every input vector of \<^verbatim>\<open>blockSize\<close> of at least 2 whose
  elements all equal one finite value, if the mean the kernel computes equals that value
  (no rounding in the mean computation), the kernel writes exactly \<open>+0.0\<close>; in
  particular, for the input \<open>1.0, 1.0, 1.0\<close> with \<^verbatim>\<open>blockSize = 3\<close> the result is
  exactly \<open>0.0\<close> (the witness below).
\<close>

theorem constant_vector_variance:
  assumes "1 < blockSize"
    and "block (mem m) pSrc (unat blockSize) = Some (replicate (unat blockSize) c)"
    and "mem m pResult \<noteq> None"
    and "same_value (mean_of (replicate (unat blockSize) c) blockSize) c"
  shows "result_at pResult (arm_var_f32 tgt pSrc blockSize pResult m) = Some f32_zero"
  using result_at_call [OF assms(1-3)] var_of_constant [OF assms(1,4)] by simp

theorem constant_vector_variance_witness:
  "(1::uint32_t) < 3 \<and>
   block (mem (machine_of (mem_of 0 [f32_one, f32_one, f32_one, NaN]))) 0 (unat (3::uint32_t)) =
     Some (replicate (unat (3::uint32_t)) f32_one) \<and>
   mem (machine_of (mem_of 0 [f32_one, f32_one, f32_one, NaN])) 3 \<noteq> None \<and>
   same_value (mean_of (replicate (unat (3::uint32_t)) f32_one) 3) f32_one \<and>
   result_at 3 (arm_var_f32 ARM_MATH_CM4 0 3 3 (machine_of (mem_of 0 [f32_one, f32_one, f32_one, NaN]))) =
     Some f32_zero"
proof -
  let ?m = "machine_of (mem_of 0 [f32_one, f32_one, f32_one, NaN])"
  have h1: "(1::uint32_t) < 3" by simp
  have rep3: "replicate 3 f32_one = [f32_one, f32_one, f32_one]"
    by (simp add: numeral_3_eq_3)
  then have rep: "replicate (unat (3::uint32_t)) f32_one = [f32_one, f32_one, f32_one]"
    by simp
  have h2: "block (mem ?m) 0 (unat (3::uint32_t)) = Some (replicate (unat (3::uint32_t)) f32_one)"
    using block_mem_of_take [of 3 "[f32_one, f32_one, f32_one, NaN]" 0]
    by (simp add: rep3)
  have h3: "mem ?m 3 \<noteq> None" by (simp add: mem_of_def)
  have "mean_of [f32_one, f32_one, f32_one] 3 = Finite False 127 0"
    by (simp add: mean_of_def f32_eval)
  then have h4: "same_value (mean_of (replicate (unat (3::uint32_t)) f32_one) 3) f32_one"
    unfolding rep by (simp add: f32_one_def)
  from constant_vector_variance [OF h1 h2 h3 h4, of ARM_MATH_CM4] h1 h2 h3 h4
  show ?thesis by simp
qed

section \<open>Effects on memory\<close>

text \<open>
  Claim C8.  For every call, the kernel never modifies the input vector (it only reads
  it), writes to \<^verbatim>\<open>*pResult\<close> exactly once, and retains no state across invocations: the
  value written is a function of the first \<^verbatim>\<open>blockSize\<close> input elements and
  \<^verbatim>\<open>blockSize\<close> alone.

  As stated the claim fails when \<^verbatim>\<open>pResult\<close> points into the input vector, which the
  signature allows (both parameters are plain \<^verbatim>\<open>float32_t *\<close>): the one store of the
  call then overwrites an input element.  With the vector \<open>1.0, 3.0\<close> at addresses 0 and
  1 and \<^verbatim>\<open>pResult\<close> at address 0, the first element holds the variance \<open>2.0\<close> after
  the call.
\<close>

theorem aliased_result_counterexample:
  "block (mem (machine_of (mem_of 0 [f32_of_u32 1, f32_of_u32 3]))) 0 (unat (2::uint32_t)) =
     Some [f32_of_u32 1, f32_of_u32 3] \<and>
   result_at 0 (arm_var_f32 ARM_MATH_CM4 0 2 0 (machine_of (mem_of 0 [f32_of_u32 1, f32_of_u32 3]))) =
     Some (f32_of_u32 2) \<and>
   f32_of_u32 2 \<noteq> f32_of_u32 1"
proof -
  let ?xs = "[f32_of_u32 1, f32_of_u32 3]"
  let ?m = "machine_of (mem_of 0 ?xs)"
  have blk: "block (mem ?m) 0 (unat (2::uint32_t)) = Some ?xs"
    unfolding mem_machine_of by (rule block_eqI) (simp_all add: mem_of_def)
  have res: "mem ?m 0 \<noteq> None" by (simp add: mem_of_def)
  have "(1::uint32_t) < 2" by simp
  have "var_of [Finite False 127 0, Finite False 128 4194304] 2 = Finite False 128 0"
    by (simp add: var_of_def mean_of_def sq_dev_def f32_eval)
  with result_at_call [OF \<open>1 < 2\<close> blk res, of ARM_MATH_CM4] blk show ?thesis
    by (simp add: f32_of_u32_small)
qed

text \<open>
  Claim C8, amended.  For every call whose first \<^verbatim>\<open>blockSize\<close> input cells and result
  cell are valid storage, the kernel writes to \<^verbatim>\<open>*pResult\<close> exactly once and to no other
  cell, and retains no state: the value written is a function of the first
  \<^verbatim>\<open>blockSize\<close> input elements and \<^verbatim>\<open>blockSize\<close> alone (\<open>+0.0\<close> for a size of 0 or 1,
  the two-pass variance otherwise).  The input vector is unchanged whenever
  \<^verbatim>\<open>pResult\<close> does not point into it.
\<close>

theorem only_result_cell_written:
  assumes "block (mem m) pSrc (unat blockSize) = Some xs" and "mem m pResult \<noteq> None"
  shows "\<exists>m'. arm_var_f32 tgt pSrc blockSize pResult m = Some m' \<and>
     mem m' = (mem m)(pResult \<mapsto> (if blockSize \<le> 1 then f32_zero else var_of xs blockSize)) \<and>
     wr_log m' = wr_log m @ [pResult] \<and>
     (pResult < pSrc \<or> pSrc + unat blockSize \<le> pResult \<longrightarrow>
        block (mem m') pSrc (unat blockSize) = Some xs)"
  using assms
  by (auto simp: arm_var_f32_eq store_eq block_upd_other)

theorem only_result_cell_written_witness:
  "block (mem (machine_of ((mem_of 0 [f32_of_u32 1, f32_of_u32 3])(2 \<mapsto> NaN)))) 0 (unat (2::uint32_t)) =
     Some [f32_of_u32 1, f32_of_u32 3] \<and>
   mem (machine_of ((mem_of 0 [f32_of_u32 1, f32_of_u32 3])(2 \<mapsto> NaN))) 2 \<noteq> None \<and>
   (\<exists>m'. arm_var_f32 ARM_MATH_CM7 0 2 2 (machine_of ((mem_of 0 [f32_of_u32 1, f32_of_u32 3])(2 \<mapsto> NaN))) = Some m' \<and>
     mem m' = (mem_of 0 [f32_of_u32 1, f32_of_u32 3])(2 \<mapsto> var_of [f32_of_u32 1, f32_of_u32 3] 2) \<and>
     wr_log m' = [2] \<and>
     block (mem m') 0 (unat (2::uint32_t)) = Some [f32_of_u32 1, f32_of_u32 3])"
proof -
  let ?xs = "[f32_of_u32 1, f32_of_u32 3]"
  let ?m = "machine_of ((mem_of 0 ?xs)(2 \<mapsto> NaN))"
  have h1: "block (mem ?m) 0 (unat (2::uint32_t)) = Some ?xs"
    unfolding mem_machine_of by (rule block_mem_of_upd) simp_all
  have h2: "mem ?m 2 \<noteq> None" by simp
  have h3: "\<not> (2::uint32_t) \<le> 1" by (simp add: not_le)
  from only_result_cell_written [OF h1 h2, of ARM_MATH_CM7] h1 h2 h3
  show ?thesis by simp
qed

section \<open>Memory accesses\<close>

text \<open>
  Claim C9.  For every \<^verbatim>\<open>blockSize\<close> of at least 2, each pass reads exactly
  \<^verbatim>\<open>blockSize\<close> elements and no more.  The unrolled configuration runs \<open>blockSize div 4\<close> groups of four and
  \<open>blockSize mod 4\<close> single steps, and the counts add up,
  \<open>4 * (blockSize >> 2) + blockSize % 4 = blockSize\<close>; its unrolled loop reads the first
  \<open>4 * (blockSize >> 2)\<close> cells and leaves the pointer behind them, and its remainder
  loop reads the rest; in either configuration each pass reads the cells
  \<open>pSrc, \<dots>, pSrc + blockSize - 1\<close> once each, in ascending order, and the call reads
  them twice and nothing else.  Only these cells (and the result cell) are assumed to be
  valid storage, so no element at an index of \<^verbatim>\<open>blockSize\<close> or more is accessed.
\<close>

theorem passes_read_exactly_the_block:
  assumes "1 < blockSize"
    and "block (mem m) pSrc (unat blockSize) = Some xs"
    and "mem m pResult \<noteq> None"
  shows "unat (drop_bit 2 blockSize) = unat blockSize div 4 \<and>
    unat (blockSize mod 4) = unat blockSize mod 4 \<and>
    4 * unat (drop_bit 2 blockSize) + unat (blockSize mod 4) = unat blockSize \<and>
    (\<exists>s m1. sum_loop4 (drop_bit 2 blockSize) pSrc f32_zero m =
               Some (pSrc + 4 * unat (drop_bit 2 blockSize), s, m1) \<and>
            rd_log m1 = rd_log m @ [pSrc..<pSrc + 4 * unat (drop_bit 2 blockSize)] \<and>
       (\<exists>s' m2. sum_loop1 (blockSize mod 4) (pSrc + 4 * unat (drop_bit 2 blockSize)) s m1 =
               Some (pSrc + unat blockSize, s', m2) \<and>
            rd_log m2 = rd_log m @ [pSrc..<pSrc + unat blockSize])) \<and>
    (\<exists>s m1. pass1 tgt pSrc blockSize m = Some (pSrc + unat blockSize, s, m1) \<and>
            rd_log m1 = rd_log m @ [pSrc..<pSrc + unat blockSize]) \<and>
    (\<exists>s m2. pass2 tgt fMean pSrc blockSize m = Some (pSrc + unat blockSize, s, m2) \<and>
            rd_log m2 = rd_log m @ [pSrc..<pSrc + unat blockSize]) \<and>
    (\<exists>m'. arm_var_f32 tgt pSrc blockSize pResult m = Some m' \<and>
            rd_log m' = rd_log m @ [pSrc..<pSrc + unat blockSize] @ [pSrc..<pSrc + unat blockSize])"
proof -
  let ?a = "4 * unat (drop_bit 2 blockSize)" and ?b = "unat (blockSize mod 4)"
  have split: "?a + ?b = unat blockSize" by (rule unat_split4)
  from assms(2) obtain ys zs where
    ys: "block (mem m) pSrc ?a = Some ys" and zs: "block (mem m) (pSrc + ?a) ?b = Some zs"
    using block_add [of "mem m" pSrc ?a ?b] unfolding split
    by (auto split: option.splits)
  have l4: "\<exists>s m1. sum_loop4 (drop_bit 2 blockSize) pSrc f32_zero m = Some (pSrc + ?a, s, m1) \<and>
            rd_log m1 = rd_log m @ [pSrc..<pSrc + ?a] \<and>
       (\<exists>s' m2. sum_loop1 (blockSize mod 4) (pSrc + ?a) s m1 = Some (pSrc + unat blockSize, s', m2) \<and>
            rd_log m2 = rd_log m @ [pSrc..<pSrc + unat blockSize])"
    using ys zs reads_reads [of pSrc ?a ?b m] split
    by (simp add: sum_loop4_eq sum_loop1_eq add.assoc)
  have p1: "\<exists>s m1. pass1 tgt pSrc blockSize m = Some (pSrc + unat blockSize, s, m1) \<and>
            rd_log m1 = rd_log m @ [pSrc..<pSrc + unat blockSize]"
    using assms(2) by (simp add: pass1_eq)
  have p2: "\<exists>s m2. pass2 tgt fMean pSrc blockSize m = Some (pSrc + unat blockSize, s, m2) \<and>
            rd_log m2 = rd_log m @ [pSrc..<pSrc + unat blockSize]"
    using assms(2) by (simp add: pass2_eq)
  have call: "\<exists>m'. arm_var_f32 tgt pSrc blockSize pResult m = Some m' \<and>
            rd_log m' = rd_log m @ [pSrc..<pSrc + unat blockSize] @ [pSrc..<pSrc + unat blockSize]"
    using assms by (simp add: arm_var_f32_eq store_eq not_le [symmetric])
  have cnt: "unat (drop_bit 2 blockSize) = unat blockSize div 4"
    "unat (blockSize mod 4) = unat blockSize mod 4"
    by (simp_all add: drop_bit_eq_div unat_div unat_mod)
  from cnt split l4 p1 p2 call show ?thesis by blast
qed


text \<open>The witness: five elements at addresses 0 to 4, the result cell at 9, and no valid
  storage in between.\<close>

theorem passes_read_exactly_the_block_witness:
  "(1::uint32_t) < 5 \<and>
   block (mem (machine_of ((mem_of 0 (map f32_of_u32 [2, 4, 4, 4, 5]))(9 \<mapsto> NaN)))) 0 (unat (5::uint32_t)) =
     Some (map f32_of_u32 [2, 4, 4, 4, 5]) \<and>
   mem (machine_of ((mem_of 0 (map f32_of_u32 [2, 4, 4, 4, 5]))(9 \<mapsto> NaN))) 9 \<noteq> None \<and>
   mem (machine_of ((mem_of 0 (map f32_of_u32 [2, 4, 4, 4, 5]))(9 \<mapsto> NaN))) 5 = None \<and>
   (\<exists>m'. arm_var_f32 ARM_MATH_CM4 0 5 9 (machine_of ((mem_of 0 (map f32_of_u32 [2, 4, 4, 4, 5]))(9 \<mapsto> NaN))) = Some m' \<and>
         rd_log m' = [0, 1, 2, 3, 4, 0, 1, 2, 3, 4])"
proof -
  let ?xs = "map f32_of_u32 [2, 4, 4, 4, 5]"
  let ?m = "machine_of ((mem_of 0 ?xs)(9 \<mapsto> NaN))"
  have h1: "(1::uint32_t) < 5" by simp
  have h2: "block (mem ?m) 0 (unat (5::uint32_t)) = Some ?xs"
    unfolding mem_machine_of by (rule block_mem_of_upd) simp_all
  have h3: "mem ?m 9 \<noteq> None" by simp
  have h4: "mem ?m 5 = None" by (simp add: mem_of_def)
  have "[0..<5] = [0, 1, 2, 3, 4]" by (simp add: upt_rec)
  with passes_read_exactly_the_block [OF h1 h2 h3, of ARM_MATH_CM4 NaN] h1 h2 h3 h4
  show ?thesis by simp
qed

section \<open>Degenerate sizes: the accesses\<close>

text \<open>
  Claim C10.  For every call with \<^verbatim>\<open>blockSize\<close> equal to 0 or 1, the kernel returns after
  writing \<open>0\<close> to \<^verbatim>\<open>*pResult\<close> without reading any element of the input vector:
  the call succeeds and the sequence of addresses read is unchanged, with no assumption on
  the memory at \<^verbatim>\<open>pSrc\<close>, so the path is safe when the input region is empty or
  invalid.
\<close>

theorem degenerate_size_reads_nothing:
  assumes "blockSize = 0 \<or> blockSize = 1" and "mem m pResult \<noteq> None"
  shows "\<exists>m'. arm_var_f32 tgt pSrc blockSize pResult m = Some m' \<and>
           rd_log m' = rd_log m \<and> mem m' pResult = Some f32_zero"
  using assms by (auto simp: arm_var_f32_def store_def)

text \<open>The witness: one element asked for at address 0, where no storage is valid.\<close>

theorem degenerate_size_reads_nothing_witness:
  "((1::uint32_t) = 0 \<or> (1::uint32_t) = 1) \<and>
   mem \<lparr>mem = [8 \<mapsto> f32_one], rd_log = [], wr_log = []\<rparr> 8 \<noteq> None \<and>
   mem \<lparr>mem = [8 \<mapsto> f32_one], rd_log = [], wr_log = []\<rparr> 0 = None \<and>
   (\<exists>m'. arm_var_f32 ARM_MATH_CM7 0 1 8 \<lparr>mem = [8 \<mapsto> f32_one], rd_log = [], wr_log = []\<rparr> = Some m' \<and>
     rd_log m' = [] \<and> mem m' 8 = Some f32_zero)"
  using degenerate_size_reads_nothing
    [of 1 "\<lparr>mem = [8 \<mapsto> f32_one], rd_log = [], wr_log = []\<rparr>" 8 ARM_MATH_CM7 0]
  by simp

end
